theory Spec2Isabelle
  imports Complex_Main "HOL-Library.Word" "HOL-Library.Log_Nat"
begin

section \<open>Shared vocabulary\<close>

text \<open>
  Python exceptions are values. \<open>HTTPException\<close> carries the status code;
  \<open>CancelledError\<close> derives from \<open>BaseException\<close> and is therefore not caught by an
  \<open>except Exception\<close> handler; every other constructor is an \<open>Exception\<close>.
  \<open>OtherException\<close> stands for whatever an external collaborator (the socket layer,
  the tracking engine) may raise.
\<close>

datatype error =
    HTTPException nat
  | ValueError
  | BinasciiError
  | OtherException
  | CancelledError

fun is_Exception :: "error \<Rightarrow> bool" where
  "is_Exception CancelledError = False"
| "is_Exception _ = True"

section \<open>web\_stream\_service: the token bucket \<open>WebSocketLimiter\<close>\<close>

text \<open>
  Python floats are idealised as real numbers; \<open>time.monotonic()\<close> is an input, the
  clock reading at the moment of the call.
\<close>

record limiter =
  max_fps :: real
  allowance :: real
  last_check :: real

text \<open>\<open>WebSocketLimiter.__init__(max_fps)\<close>, constructed when the clock reads \<open>now\<close>.\<close>

definition WebSocketLimiter :: "real \<Rightarrow> real \<Rightarrow> limiter" where
  "WebSocketLimiter rate now = \<lparr>max_fps = rate, allowance = rate, last_check = now\<rparr>"

text \<open>\<open>WebSocketLimiter.consume\<close>: the verdict and the mutated object.\<close>

definition consume :: "limiter \<Rightarrow> real \<Rightarrow> bool \<times> limiter" where
  "consume self current =
     (let time_passed = current - last_check self;
          self1 = self\<lparr>last_check := current\<rparr>;
          self2 = self1\<lparr>allowance := allowance self1 + time_passed * max_fps self1\<rparr>;
          self3 = (if allowance self2 > max_fps self2
                   then self2\<lparr>allowance := max_fps self2\<rparr> else self2)
      in if allowance self3 < 1 then (False, self3)
         else (True, self3\<lparr>allowance := allowance self3 - 1\<rparr>))"

text \<open>
  The wording of the specification, as a second definition: accumulate
  \<open>elapsed * max_rate\<close>, clamp to \<open>max_rate\<close>, then allow with a decrement of one token
  when at least one token is there, and deny otherwise.
\<close>

definition consume_spec :: "limiter \<Rightarrow> real \<Rightarrow> bool \<times> limiter" where
  "consume_spec self current =
     (let elapsed = current - last_check self;
          clamped = min (allowance self + elapsed * max_fps self) (max_fps self)
      in if clamped \<ge> 1
         then (True, \<lparr>max_fps = max_fps self, allowance = clamped - 1, last_check = current\<rparr>)
         else (False, \<lparr>max_fps = max_fps self, allowance = clamped, last_check = current\<rparr>))"

text \<open>A run of calls at the clock readings \<open>ts\<close>: each verdict with the state it leaves.\<close>

fun consume_calls :: "limiter \<Rightarrow> real list \<Rightarrow> (bool \<times> limiter) list" where
  "consume_calls self [] = []"
| "consume_calls self (t # ts) = consume self t # consume_calls (snd (consume self t)) ts"

definition bucket_ok :: "limiter \<Rightarrow> bool" where
  "bucket_ok self = (0 \<le> allowance self \<and> allowance self \<le> max_fps self)"

subsection \<open>The token bucket in binary64 arithmetic\<close>

text \<open>
  Whether a refill reaches one token can depend on rounding, so the limiter is also given
  with the arithmetic of Python's \<open>float\<close>: every sum, difference and product is rounded
  to the nearest number with a significand of 53 bits, ties to the even significand. The
  range of the exponent is not bounded (no overflow, no subnormal numbers). An \<open>int\<close>
  below \<open>2 ^ 53\<close> converts to \<open>float\<close> exactly, so \<open>max_fps\<close> and the initial allowance
  enter as they are.
\<close>

text \<open>The nearest integer, ties to the even one.\<close>

definition round_even :: "real \<Rightarrow> int" where
  "round_even y =
     (let f = \<lfloor>y\<rfloor>; r = y - of_int f
      in if r < 1 / 2 then f
         else if 1 / 2 < r then f + 1
         else if even f then f else f + 1)"

text \<open>The exponent \<open>e\<close> with \<open>2 ^ e \<le> |x| < 2 ^ (e + 1)\<close>, for \<open>x\<close> other than 0.\<close>

definition exponent :: "real \<Rightarrow> int" where
  "exponent x =
     (if 1 \<le> \<bar>x\<bar> then bitlen \<lfloor>\<bar>x\<bar>\<rfloor> - 1 else - bitlen (\<lceil>1 / \<bar>x\<bar>\<rceil> - 1))"

definition binary64 :: "real \<Rightarrow> real" where
  "binary64 x =
     (if x = 0 then 0
      else of_int (round_even (x * 2 powi (52 - exponent x))) * 2 powi (exponent x - 52))"




section \<open>fastapi\_service: the registry \<open>ConnectionManager\<close>\<close>

text \<open>
  The registry is the list \<open>active_connections\<close>. The socket layer is not code of the
  repository. What a send does is an input: \<open>send_json\<close> yields \<open>None\<close> when it returns and
  \<open>Some e\<close> when it raises \<open>e\<close>. The handshake follows the contract of the framework's
  \<open>WebSocket\<close>: \<open>accept\<close> returns at most once for a connection, and raises when it is
  called for a connection that has been accepted before; for a connection not yet
  accepted its outcome is an input. The layer's state is the set of accepted connections.
\<close>

record 'c connection_manager =
  active_connections :: "'c list"

definition ConnectionManager :: "'c connection_manager" where
  "ConnectionManager = \<lparr>active_connections = []\<rparr>"

definition accept :: "error option \<Rightarrow> 'c \<Rightarrow> 'c set \<Rightarrow> error option \<times> 'c set" where
  "accept outcome websocket accepted =
     (if websocket \<in> accepted then (Some OtherException, accepted)
      else (case outcome of
              Some e \<Rightarrow> (Some e, accepted)
            | None \<Rightarrow> (None, insert websocket accepted)))"

text \<open>\<open>connect\<close>: the exception raised (if any), the registry and the socket layer
  afterwards.\<close>

definition connect ::
  "error option \<Rightarrow> 'c \<Rightarrow> 'c connection_manager \<times> 'c set
     \<Rightarrow> error option \<times> 'c connection_manager \<times> 'c set" where
  "connect outcome websocket state =
     (case accept outcome websocket (snd state) of
        (Some e, accepted) \<Rightarrow> (Some e, fst state, accepted)
      | (None, accepted) \<Rightarrow>
          (None,
           (fst state)\<lparr>active_connections := active_connections (fst state) @ [websocket]\<rparr>,
           accepted))"

text \<open>\<open>list.remove\<close> deletes the first occurrence, as \<open>remove1\<close> does.\<close>

definition disconnect :: "'c \<Rightarrow> 'c connection_manager \<Rightarrow> 'c connection_manager" where
  "disconnect websocket self =
     (if websocket \<in> set (active_connections self)
      then self\<lparr>active_connections := remove1 websocket (active_connections self)\<rparr>
      else self)"

datatype ('c, 'm) wire_event =
    Sent 'c 'm
  | Send_failed 'c
  | Disconnected 'c

lemma length_fold_disconnect:
  "length (active_connections (fold disconnect ds self)) \<le> length (active_connections self)"
proof (induction ds arbitrary: self)
  case Nil
  then show ?case by simp
next
  case (Cons d ds)
  have "length (active_connections (disconnect d self)) \<le> length (active_connections self)"
    by (simp add: disconnect_def length_remove1)
  with Cons.IH [of "disconnect d self"] show ?case by simp
qed

text \<open>
  The \<open>for\<close> loop of \<open>broadcast\<close>. It iterates the live list: the iterator holds the index
  \<open>i\<close> of the next element and stops when the index reaches the length the list has at
  that moment. The loop holds the lock, so no \<open>connect\<close> appends meanwhile; \<open>disconnect\<close>
  takes no lock, and the handlers of other connections call it while the loop is suspended
  in \<open>await connection.send_json(message)\<close>. \<open>others\<close> lists, for each \<open>await\<close> of the loop
  in order, the connections so disconnected during it (none once the list is used up).
  The result is the exception that leaves the loop (if any), the registry, the list
  \<open>disconnected\<close> and the log; a send is logged where it starts.
\<close>

function delivery_pass ::
  "('c \<Rightarrow> 'm \<Rightarrow> error option) \<Rightarrow> 'c list list \<Rightarrow> 'm \<Rightarrow> 'c connection_manager \<Rightarrow> nat
     \<Rightarrow> error option \<times> 'c connection_manager \<times> 'c list \<times> ('c, 'm) wire_event list" where
  "delivery_pass send_json others message self i =
     (if i < length (active_connections self)
      then (let connection = active_connections self ! i;
                meanwhile = (case others of [] \<Rightarrow> [] | ds # later \<Rightarrow> ds);
                self' = fold disconnect meanwhile self
            in case send_json connection message of
                 None \<Rightarrow>
                   (case delivery_pass send_json (tl others) message self' (Suc i) of
                      (raised, self'', disconnected, events) \<Rightarrow>
                        (raised, self'', disconnected,
                         Sent connection message # map Disconnected meanwhile @ events))
               | Some e \<Rightarrow>
                   if is_Exception e
                   then (case delivery_pass send_json (tl others) message self' (Suc i) of
                           (raised, self'', disconnected, events) \<Rightarrow>
                             (raised, self'', connection # disconnected,
                              Send_failed connection # map Disconnected meanwhile @ events))
                   else (Some e, self', [], Send_failed connection # map Disconnected meanwhile))
      else (None, self, [], []))"
  by pat_completeness auto
termination
proof (relation "measure (\<lambda>(send_json, others, message, self, i).
                            length (active_connections self) - i)")
  show "wf (measure (\<lambda>(send_json :: 'c \<Rightarrow> 'm \<Rightarrow> error option, others :: 'c list list,
                        message :: 'm, self :: 'c connection_manager, i).
                  length (active_connections self) - i))"
    by simp
next
  fix send_json :: "'c \<Rightarrow> 'm \<Rightarrow> error option" and others :: "'c list list" and message :: 'm
    and self :: "'c connection_manager" and i :: nat and connection meanwhile self'
  assume "i < length (active_connections self)"
    "meanwhile = (case others of [] \<Rightarrow> [] | ds # later \<Rightarrow> ds)"
    "self' = fold disconnect meanwhile self"
  then show "((send_json, tl others, message, self', Suc i), (send_json, others, message, self, i))
      \<in> measure (\<lambda>(send_json, others, message, self, i). length (active_connections self) - i)"
    using length_fold_disconnect [of meanwhile self]
    by simp
next
  fix send_json :: "'c \<Rightarrow> 'm \<Rightarrow> error option" and others :: "'c list list" and message :: 'm
    and self :: "'c connection_manager" and i :: nat and connection meanwhile self' e
  assume "i < length (active_connections self)"
    "meanwhile = (case others of [] \<Rightarrow> [] | ds # later \<Rightarrow> ds)"
    "self' = fold disconnect meanwhile self"
  then show "((send_json, tl others, message, self', Suc i), (send_json, others, message, self, i))
      \<in> measure (\<lambda>(send_json, others, message, self, i). length (active_connections self) - i)"
    using length_fold_disconnect [of meanwhile self]
    by simp
qed

declare delivery_pass.simps [simp del]

text \<open>
  \<open>broadcast\<close>: the exception that reaches the caller (if any), the registry afterwards and
  the log. The removals after the loop run without suspension. When an exception escapes
  the loop, \<open>broadcast\<close> itself has removed nothing.
\<close>

definition broadcast ::
  "('c \<Rightarrow> 'm \<Rightarrow> error option) \<Rightarrow> 'c list list \<Rightarrow> 'm \<Rightarrow> 'c connection_manager
     \<Rightarrow> error option \<times> 'c connection_manager \<times> ('c, 'm) wire_event list" where
  "broadcast send_json others message self =
     (if active_connections self = [] then (None, self, [])
      else (case delivery_pass send_json others message self 0 of
              (Some e, self', disconnected, events) \<Rightarrow> (Some e, self', events)
            | (None, self', disconnected, events) \<Rightarrow>
                (None, fold disconnect disconnected self',
                 events @ map Disconnected disconnected)))"

text \<open>Calls on the registry, and a run of them from the state of a fresh application.
  The exceptions go to the callers and are dropped here.\<close>

datatype ('c, 'm) call =
    Connect 'c "error option"
  | Disconnect 'c
  | Broadcast "'c \<Rightarrow> 'm \<Rightarrow> error option" "'c list list" 'm

fun call_step ::
  "'c connection_manager \<times> 'c set \<Rightarrow> ('c, 'm) call \<Rightarrow> 'c connection_manager \<times> 'c set" where
  "call_step state (Connect websocket outcome) = snd (connect outcome websocket state)"
| "call_step state (Disconnect websocket) = (disconnect websocket (fst state), snd state)"
| "call_step state (Broadcast send_json others message) =
     (fst (snd (broadcast send_json others message (fst state))), snd state)"

fun run_calls ::
  "'c connection_manager \<times> 'c set \<Rightarrow> ('c, 'm) call list \<Rightarrow> 'c connection_manager \<times> 'c set" where
  "run_calls state [] = state"
| "run_calls state (c # cs) = run_calls (call_step state c) cs"

definition fresh_application :: "'c connection_manager \<times> 'c set" where
  "fresh_application = (ConnectionManager, {})"

text \<open>
  A monitor on the log of a broadcast that follows the registry through it: every send
  goes to a connection that is in the registry at the moment the send starts.
\<close>

fun sends_to_registered :: "'c list \<Rightarrow> ('c, 'm) wire_event list \<Rightarrow> bool" where
  "sends_to_registered registry [] = True"
| "sends_to_registered registry (Sent c m # events) =
     (c \<in> set registry \<and> sends_to_registered registry events)"
| "sends_to_registered registry (Send_failed c # events) =
     (c \<in> set registry \<and> sends_to_registered registry events)"
| "sends_to_registered registry (Disconnected c # events) =
     sends_to_registered (remove1 c registry) events"

text \<open>The registry holds no connection twice, and only accepted connections.\<close>

definition registry_ok :: "'c connection_manager \<times> 'c set \<Rightarrow> bool" where
  "registry_ok state =
     (distinct (active_connections (fst state)) \<and> set (active_connections (fst state)) \<subseteq> snd state)"

section \<open>fastapi\_service: \<open>lifespan\<close>\<close>

record eye_tracking_service =
  current_user_id :: "string option"
  current_module_id :: "string option"
  current_section_id :: "string option"
  webcam :: "nat option"

text \<open>The two background coroutines: \<open>process_frames_background\<close> is the health monitor,
  \<open>broadcast_websocket_updates\<close> the state broadcast.\<close>

datatype task = Process_frames_background | Broadcast_websocket_updates

datatype lifecycle_event =
    Engine_constructed
  | Task_created task
  | Task_cancelled task
  | Task_awaited task
  | Tracking_stopped
  | Webcam_released
  | Error_logged

text \<open>The module's globals.\<close>

record app_globals =
  eye_tracker :: "eye_tracking_service option"
  frame_processing_task :: "task option"
  websocket_broadcast_task :: "task option"

definition initial_globals :: app_globals where
  "initial_globals =
     \<lparr>eye_tracker = None, frame_processing_task = None, websocket_broadcast_task = None\<rparr>"

text \<open>
  The part of \<open>lifespan\<close> before \<open>yield\<close>. The constructor of the engine is an input
  (\<open>Inl e\<close>: it raises \<open>e\<close>, which is logged and raised again).
\<close>

definition lifespan_startup ::
  "error + eye_tracking_service \<Rightarrow> app_globals
     \<Rightarrow> (error + app_globals) \<times> lifecycle_event list" where
  "lifespan_startup constructed g =
     (case constructed of
        Inl e \<Rightarrow> (Inl e, if is_Exception e then [Error_logged] else [])
      | Inr tracker \<Rightarrow>
          (Inr (g\<lparr>eye_tracker := Some tracker,
                  frame_processing_task := Some Process_frames_background,
                  websocket_broadcast_task := Some Broadcast_websocket_updates\<rparr>),
           [Engine_constructed,
            Task_created Process_frames_background,
            Task_created Broadcast_websocket_updates]))"

text \<open>
  \<open>task.cancel()\<close> followed by \<open>await task\<close> inside \<open>try ... except CancelledError: pass\<close>.
  The outcome of the \<open>await\<close> is an input; the result is the exception that leaves the
  inner \<open>try\<close>.
\<close>

definition cancel_and_await :: "task option \<Rightarrow> error option \<Rightarrow> error option \<times> lifecycle_event list" where
  "cancel_and_await handle awaited =
     (case handle of
        None \<Rightarrow> (None, [])
      | Some t \<Rightarrow>
          (case awaited of
             None \<Rightarrow> (None, [Task_cancelled t, Task_awaited t])
           | Some e \<Rightarrow>
               if e = CancelledError then (None, [Task_cancelled t, Task_awaited t])
               else (Some e, [Task_cancelled t, Task_awaited t])))"

text \<open>
  The part of \<open>lifespan\<close> after \<open>yield\<close>, as the list of what it does. An \<open>Exception\<close>
  anywhere is caught by the outer handler and logged, and the steps after it are skipped.
  \<open>stop_tracking\<close> is the engine's operation (\<open>Inl e\<close>: it raises; \<open>Inr t\<close>: the engine
  afterwards); \<open>webcam.release()\<close> is taken to return.
\<close>

definition lifespan_shutdown ::
  "error option \<Rightarrow> error option \<Rightarrow> (eye_tracking_service \<Rightarrow> error + eye_tracking_service)
     \<Rightarrow> app_globals \<Rightarrow> lifecycle_event list" where
  "lifespan_shutdown awaited1 awaited2 stop_tracking g =
     (case cancel_and_await (frame_processing_task g) awaited1 of
        (Some e, ev1) \<Rightarrow> ev1 @ [Error_logged]
      | (None, ev1) \<Rightarrow>
          (case cancel_and_await (websocket_broadcast_task g) awaited2 of
             (Some e, ev2) \<Rightarrow> ev1 @ ev2 @ [Error_logged]
           | (None, ev2) \<Rightarrow>
               (case eye_tracker g of
                  None \<Rightarrow> ev1 @ ev2
                | Some tracker \<Rightarrow>
                    (case stop_tracking tracker of
                       Inl e \<Rightarrow>
                         ev1 @ ev2 @ [Tracking_stopped] @
                         (if is_Exception e then [Error_logged] else [])
                     | Inr tracker' \<Rightarrow>
                         ev1 @ ev2 @ [Tracking_stopped] @
                         (if webcam tracker' \<noteq> None then [Webcam_released] else [])))))"

text \<open>\<open>a\<close> occurs in the trace and \<open>b\<close> occurs somewhere after its first occurrence.\<close>

definition precedes :: "'a \<Rightarrow> 'a \<Rightarrow> 'a list \<Rightarrow> bool" where
  "precedes a b tr = (a \<in> set tr \<and> b \<in> set (drop 1 (dropWhile (\<lambda>e. e \<noteq> a) tr)))"

section \<open>The frame pipeline\<close>

subsection \<open>Payload, configuration and collaborators\<close>

type_synonym byte = "8 word"

text \<open>
  \<open>FramePayload\<close>. In web\_stream\_service \<open>frame_id\<close> and \<open>timestamp\<close> are not optional
  (their factories fill them in, so they are never \<open>None\<close> there); in fastapi\_service
  they are.
\<close>

record frame_payload =
  frame_id :: "string option"
  user_id :: "string option"
  module_id :: "string option"
  section_id :: "string option"
  timestamp :: "real option"
  fps :: "real option"
  frame_base64 :: string

text \<open>The validator of the field \<open>frame_base64\<close>: \<open>value.startswith("data:image/")\<close>.\<close>

definition validate_base64 :: "string \<Rightarrow> bool" where
  "validate_base64 v = (take 11 v = ''data:image/'')"

text \<open>The fields of \<open>Settings\<close> that the pipeline reads.\<close>

record settings =
  max_frame_kb :: int
  max_client_fps :: int
  browser_streaming_enabled :: bool

text \<open>Python's truth value of an \<open>Optional[str]\<close>, and \<open>a or b\<close>.\<close>

definition truthy :: "string option \<Rightarrow> bool" where
  "truthy v = (case v of None \<Rightarrow> False | Some x \<Rightarrow> x \<noteq> [])"

definition py_or :: "string option \<Rightarrow> string option \<Rightarrow> string option" where
  "py_or a b = (if truthy a then a else b)"

text \<open>\<open>s.split(",", 1)\<close> unpacked into two names: \<open>None\<close> when there is no comma (the
  unpacking raises \<open>ValueError\<close>).\<close>

definition split_comma :: "string \<Rightarrow> (string \<times> string) option" where
  "split_comma v =
     (if CHR '','' \<in> set v
      then Some (takeWhile (\<lambda>c. c \<noteq> CHR '','') v, drop 1 (dropWhile (\<lambda>c. c \<noteq> CHR '','') v))
      else None)"

text \<open>
  The collaborators that are not code of the repository, as inputs: \<open>base64.b64decode\<close>
  (\<open>None\<close>: it raises \<open>binascii.Error\<close>), whether \<open>import cv2\<close> succeeds, \<open>cv2.imdecode\<close>
  (\<open>None\<close>: it returns \<open>None\<close>) and the engine's \<open>process_remote_frame\<close>, which returns
  the status dictionary and the preview, or raises.
\<close>

type_synonym 'v status = "(string \<times> 'v) list"

record ('img, 'v, 'fd) collaborators =
  b64decode :: "string \<Rightarrow> byte list option"
  cv2_importable :: bool
  imdecode :: "byte list \<Rightarrow> 'img option"
  process_remote_frame ::
    "'img \<Rightarrow> string option \<Rightarrow> string option \<Rightarrow> string option \<Rightarrow> error + ('v status \<times> 'fd)"

text \<open>The response dictionary.\<close>

record ('v, 'fd) response =
  success :: bool
  resp_frame_id :: "string option"
  resp_user_id :: "string option"
  resp_module_id :: "string option"
  resp_section_id :: "string option"
  resp_timestamp :: "real option"
  resp_status :: "'v status"
  resp_metrics :: "'v option"
  resp_current_frame :: 'fd

text \<open>What is done to one frame, in order: the limiter's verdict, the base64 decoding,
  the image decoding, the call of the engine with its arguments.\<close>

datatype 'img event =
    Admission bool
  | Transport_decode
  | Image_decode
  | Dispatch 'img "string option" "string option" "string option"

fun is_Dispatch :: "'img event \<Rightarrow> bool" where
  "is_Dispatch (Dispatch img u m s) = True"
| "is_Dispatch _ = False"

subsection \<open>web\_stream\_service\<close>

definition decode_frame ::
  "('img, 'v, 'fd) collaborators \<Rightarrow> settings \<Rightarrow> string \<Rightarrow> (error + 'img) \<times> 'img event list" where
  "decode_frame ext cfg data_url =
     (case split_comma data_url of
        None \<Rightarrow> (Inl ValueError, [])
      | Some (header, b64_data) \<Rightarrow>
          (case b64decode ext b64_data of
             None \<Rightarrow> (Inl BinasciiError, [Transport_decode])
           | Some raw_bytes \<Rightarrow>
               if int (length raw_bytes) > max_frame_kb cfg * 1024
               then (Inl (HTTPException 413), [Transport_decode])
               else if \<not> cv2_importable ext
               then (Inl (HTTPException 500), [Transport_decode])
               else (case imdecode ext raw_bytes of
                       None \<Rightarrow> (Inl ValueError, [Transport_decode, Image_decode])
                     | Some img \<Rightarrow> (Inr img, [Transport_decode, Image_decode]))))"

definition process_frame ::
  "('img, 'v, 'fd) collaborators \<Rightarrow> settings \<Rightarrow> frame_payload
     \<Rightarrow> (error + ('v, 'fd) response) \<times> 'img event list" where
  "process_frame ext cfg payload =
     (if \<not> browser_streaming_enabled cfg then (Inl (HTTPException 503), [])
      else if \<not> truthy (user_id payload) \<or> \<not> truthy (module_id payload)
      then (Inl (HTTPException 400), [])
      else (case decode_frame ext cfg (frame_base64 payload) of
              (Inl e, tr) \<Rightarrow> (Inl e, tr)
            | (Inr img, tr) \<Rightarrow>
                (case process_remote_frame ext img
                        (user_id payload) (module_id payload) (section_id payload) of
                   Inl e \<Rightarrow>
                     (Inl e, tr @ [Dispatch img
                        (user_id payload) (module_id payload) (section_id payload)])
                 | Inr (status, frame_data) \<Rightarrow>
                     (Inr \<lparr>success = True,
                           resp_frame_id = frame_id payload,
                           resp_user_id = user_id payload,
                           resp_module_id = module_id payload,
                           resp_section_id = section_id payload,
                           resp_timestamp = timestamp payload,
                           resp_status = status,
                           resp_metrics = map_of status ''metrics'',
                           resp_current_frame = frame_data\<rparr>,
                      tr @ [Dispatch img
                        (user_id payload) (module_id payload) (section_id payload)]))))"

text \<open>The single-shot channel: \<open>POST /api/frames\<close> and \<open>POST /api/stream-frame\<close>.\<close>

definition ingest_frame ::
  "('img, 'v, 'fd) collaborators \<Rightarrow> settings \<Rightarrow> frame_payload
     \<Rightarrow> (error + ('v, 'fd) response) \<times> 'img event list" where
  "ingest_frame ext cfg payload = process_frame ext cfg payload"

text \<open>
  The streaming channel \<open>/ws/frames\<close>. A received text is what \<open>json.loads\<close> makes of it
  (\<open>None\<close>: not the fields of a payload) together with the clock reading at which it is
  handled. \<open>FramePayload(**...)\<close> runs the validator. The sends to the client are taken to
  return.
\<close>

definition FramePayload :: "frame_payload option \<Rightarrow> error + frame_payload" where
  "FramePayload parsed =
     (case parsed of
        None \<Rightarrow> Inl ValueError
      | Some p \<Rightarrow> if validate_base64 (frame_base64 p) then Inr p else Inl ValueError)"

datatype ('v, 'fd) ws_outcome =
    Sent_error string
  | Sent_result "('v, 'fd) response"
  | Raised error

text \<open>The body of the \<open>while True\<close> loop for one received text.\<close>

definition handle_message ::
  "('img, 'v, 'fd) collaborators \<Rightarrow> settings \<Rightarrow> limiter \<Rightarrow> frame_payload option \<times> real
     \<Rightarrow> ('v, 'fd) ws_outcome \<times> limiter \<times> 'img event list" where
  "handle_message ext cfg limiter message =
     (case FramePayload (fst message) of
        Inl exc \<Rightarrow> (Sent_error ''Invalid payload'', limiter, [])
      | Inr payload \<Rightarrow>
          (case consume limiter (snd message) of
             (False, limiter') \<Rightarrow> (Sent_error ''Rate limit exceeded'', limiter', [Admission False])
           | (True, limiter') \<Rightarrow>
               (case process_frame ext cfg payload of
                  (Inl e, tr) \<Rightarrow> (Raised e, limiter', Admission True # tr)
                | (Inr result, tr) \<Rightarrow> (Sent_result result, limiter', Admission True # tr))))"

text \<open>
  The loop over the texts the client sends before it disconnects. An exception of
  \<open>process_frame\<close> is not caught in the loop: it ends the handler, and the remaining texts
  are never received. The result lists, for each text handled, the outcome and what was
  done to the frame.
\<close>

fun websocket_loop ::
  "('img, 'v, 'fd) collaborators \<Rightarrow> settings \<Rightarrow> limiter \<Rightarrow> (frame_payload option \<times> real) list
     \<Rightarrow> (('v, 'fd) ws_outcome \<times> 'img event list) list" where
  "websocket_loop ext cfg limiter [] = []"
| "websocket_loop ext cfg limiter (message # rest) =
     (case handle_message ext cfg limiter message of
        (Raised e, limiter', tr) \<Rightarrow> [(Raised e, tr)]
      | (outcome, limiter', tr) \<Rightarrow> (outcome, tr) # websocket_loop ext cfg limiter' rest)"

text \<open>\<open>websocket_frames\<close>: the limiter is made by \<open>websocket_settings\<close> when the connection
  opens, at clock reading \<open>t0\<close>.\<close>

definition websocket_frames ::
  "('img, 'v, 'fd) collaborators \<Rightarrow> settings \<Rightarrow> real \<Rightarrow> (frame_payload option \<times> real) list
     \<Rightarrow> (('v, 'fd) ws_outcome \<times> 'img event list) list" where
  "websocket_frames ext cfg t0 messages =
     websocket_loop ext cfg (WebSocketLimiter (real_of_int (max_client_fps cfg)) t0) messages"

subsection \<open>fastapi\_service\<close>

text \<open>
  \<open>receive_browser_frame\<close> (\<open>POST /api/frames\<close>). \<open>now\<close> is \<open>time.time()\<close>. The inner
  \<open>try\<close> turns every failure of the decoding into a 400; the outer one lets an
  \<open>HTTPException\<close> through and turns any other \<open>Exception\<close> into a 500.
\<close>

definition receive_browser_frame ::
  "('img, 'v, 'fd) collaborators \<Rightarrow> eye_tracking_service option \<Rightarrow> real \<Rightarrow> frame_payload
     \<Rightarrow> (error + ('v, 'fd) response) \<times> 'img event list" where
  "receive_browser_frame ext tracker_global now payload =
     (case tracker_global of
        None \<Rightarrow> (Inl (HTTPException 503), [])
      | Some tracker \<Rightarrow>
          (case split_comma (frame_base64 payload) of
             None \<Rightarrow> (Inl (HTTPException 400), [])
           | Some (header, b64_data) \<Rightarrow>
               (case b64decode ext b64_data of
                  None \<Rightarrow> (Inl (HTTPException 400), [Transport_decode])
                | Some raw_bytes \<Rightarrow>
                    (case imdecode ext raw_bytes of
                       None \<Rightarrow> (Inl (HTTPException 400), [Transport_decode, Image_decode])
                     | Some frame \<Rightarrow>
                         (let uid = py_or (user_id payload) (current_user_id tracker);
                              mid = py_or (module_id payload) (current_module_id tracker);
                              sid = py_or (section_id payload) (current_section_id tracker)
                          in if \<not> truthy uid \<or> \<not> truthy mid
                             then (Inl (HTTPException 400), [Transport_decode, Image_decode])
                             else (case process_remote_frame ext frame uid mid sid of
                                     Inl e \<Rightarrow>
                                       (Inl (case e of
                                               HTTPException c \<Rightarrow> HTTPException c
                                             | CancelledError \<Rightarrow> CancelledError
                                             | _ \<Rightarrow> HTTPException 500),
                                        [Transport_decode, Image_decode, Dispatch frame uid mid sid])
                                   | Inr (status, frame_data) \<Rightarrow>
                                       (Inr \<lparr>success = True,
                                             resp_frame_id = frame_id payload,
                                             resp_user_id = uid,
                                             resp_module_id = mid,
                                             resp_section_id = sid,
                                             resp_timestamp =
                                               Some (case timestamp payload of
                                                       None \<Rightarrow> now
                                                     | Some t \<Rightarrow> if t = 0 then now else t),
                                             resp_status = status,
                                             resp_metrics = map_of status ''metrics'',
                                             resp_current_frame = frame_data\<rparr>,
                                        [Transport_decode, Image_decode,
                                         Dispatch frame uid mid sid])))))))"

subsection \<open>Predicates on what is done to a frame\<close>

text \<open>The frame went through the limiter first, and nothing was done to it after a denial.\<close>

fun rate_gated :: "'img event list \<Rightarrow> bool" where
  "rate_gated (Admission ok # rest) = (ok \<or> rest = [])"
| "rate_gated _ = False"

text \<open>Neither an image was decoded nor the engine called.\<close>

definition untouched :: "'img event list \<Rightarrow> bool" where
  "untouched tr = (Image_decode \<notin> set tr \<and> \<not> list_ex is_Dispatch tr)"

fun is_Sent_result :: "('v, 'fd) ws_outcome \<Rightarrow> bool" where
  "is_Sent_result (Sent_result r) = True"
| "is_Sent_result _ = False"

subsection \<open>Sample inputs\<close>

text \<open>
  Stand-ins for the collaborators, for evaluating the model: the decoded bytes are as many
  zero bytes as the base64 text has characters, an image is represented by its number of
  bytes, and the engine answers with a status that has a \<open>metrics\<close> entry.
\<close>

definition sample_collaborators :: "(nat, nat, nat) collaborators" where
  "sample_collaborators =
     \<lparr>b64decode = (\<lambda>s. Some (replicate (length s) 0)),
      cv2_importable = True,
      imdecode = (\<lambda>raw. Some (length raw)),
      process_remote_frame = (\<lambda>img u m s. Inr ([(''metrics'', 7)], 0))\<rparr>"

definition default_settings :: settings where
  "default_settings =
     \<lparr>max_frame_kb = 512, max_client_fps = 10, browser_streaming_enabled = True\<rparr>"

definition sample_payload :: frame_payload where
  "sample_payload =
     \<lparr>frame_id = Some ''f1'', user_id = Some ''u1'', module_id = Some ''m1'',
      section_id = None, timestamp = Some 5, fps = None,
      frame_base64 = ''data:image/png;base64,AAAA''\<rparr>"

definition sample_tracker :: eye_tracking_service where
  "sample_tracker =
     \<lparr>current_user_id = Some ''u1'', current_module_id = Some ''m1'',
      current_section_id = None, webcam = None\<rparr>"

section \<open>Properties of the token bucket\<close>

lemma consume_max_fps: "max_fps (snd (consume self t)) = max_fps self"
  by (simp add: consume_def Let_def)

lemma consume_last_check: "last_check (snd (consume self t)) = t"
  by (simp add: consume_def Let_def)

lemma consume_bucket_ok:
  assumes "0 < max_fps self" "bucket_ok self" "last_check self \<le> t"
  shows "bucket_ok (snd (consume self t))"
proof -
  have "0 \<le> (t - last_check self) * max_fps self"
    using assms by simp
  then show ?thesis
    using assms by (auto simp: consume_def Let_def bucket_ok_def)
qed

lemma consume_calls_bucket_ok:
  "0 < max_fps self \<Longrightarrow> bucket_ok self \<Longrightarrow> sorted (last_check self # ts) \<Longrightarrow>
   list_all (\<lambda>r. bucket_ok (snd r)) (consume_calls self ts)"
proof (induction ts arbitrary: self)
  case Nil
  then show ?case by simp
next
  case (Cons t ts)
  let ?s = "snd (consume self t)"
  have ok: "bucket_ok ?s"
    using Cons.prems by (intro consume_bucket_ok) auto
  have "sorted (last_check ?s # ts)"
    using Cons.prems by (simp add: consume_last_check)
  with Cons.IH [of ?s] ok Cons.prems(1) show ?case
    by (simp add: consume_max_fps)
qed

lemma consume_calls_max_fps:
  "list_all (\<lambda>r. max_fps (snd r) = max_fps self) (consume_calls self ts)"
proof (induction ts arbitrary: self)
  case Nil
  then show ?case by simp
next
  case (Cons t ts)
  from Cons.IH [of "snd (consume self t)"] show ?case
    by (simp add: consume_max_fps)
qed

lemma fresh_bucket_ok: "0 < rate \<Longrightarrow> bucket_ok (WebSocketLimiter rate t0)"
  by (simp add: WebSocketLimiter_def bucket_ok_def)

text \<open>
  C2. Every call of \<open>consume\<close> does what the specification says: it adds
  \<open>elapsed * max_rate\<close> to the allowance, clamps the allowance to \<open>max_rate\<close>, and then
  allows with the allowance lowered by exactly one when the allowance is at least one,
  and denies otherwise, leaving the accumulated and clamped allowance (and the new time of
  the last check) in place. This holds for every rate, in particular a strictly positive one.
\<close>

theorem consume_refines_spec: "consume self current = consume_spec self current"
  by (auto simp: consume_def consume_spec_def Let_def min_def)

theorem consume_refines_spec_witness:
  "consume \<lparr>max_fps = 5, allowance = 1/2, last_check = 10\<rparr> (10 + 1/5)
     = (True, \<lparr>max_fps = 5, allowance = 1/2, last_check = 10 + 1/5\<rparr>)
   \<and> consume \<lparr>max_fps = 5, allowance = 1/2, last_check = 10\<rparr> (10 + 1/20)
     = (False, \<lparr>max_fps = 5, allowance = 3/4, last_check = 10 + 1/20\<rparr>)
   \<and> consume \<lparr>max_fps = 5, allowance = 9/2, last_check = 10\<rparr> 12
     = (True, \<lparr>max_fps = 5, allowance = 4, last_check = 12\<rparr>)"
  unfolding consume_refines_spec by (simp add: consume_spec_def Let_def)

text \<open>
  C3. For a limiter created with a strictly positive rate and any finite run of
  \<open>consume\<close> calls whose clock readings never go backwards (the elapsed times are
  non-negative), the allowance lies between 0 and \<open>max_rate\<close> after every call.
\<close>

theorem allowance_within_bounds:
  assumes "0 < rate" and "sorted (t0 # ts)"
  shows "list_all (\<lambda>r. 0 \<le> allowance (snd r) \<and> allowance (snd r) \<le> rate)
           (consume_calls (WebSocketLimiter rate t0) ts)"
proof -
  let ?l = "WebSocketLimiter rate t0"
  have "list_all (\<lambda>r. bucket_ok (snd r)) (consume_calls ?l ts)"
    using assms by (intro consume_calls_bucket_ok fresh_bucket_ok)
      (simp_all add: WebSocketLimiter_def)
  moreover have "list_all (\<lambda>r. max_fps (snd r) = rate) (consume_calls ?l ts)"
    using consume_calls_max_fps [of ?l ts] by (simp add: WebSocketLimiter_def)
  ultimately show ?thesis
    by (auto simp: bucket_ok_def list_all_iff)
qed

theorem allowance_within_bounds_witness:
  "(0::real) < 2 \<and> sorted [0, 0, 0, 0, 1/4, 3::real] \<and>
   map (\<lambda>r. allowance (snd r)) (consume_calls (WebSocketLimiter 2 0) [0, 0, 0, 1/4, 3])
     = [1, 0, 0, 1/2, 1] \<and>
   list_all (\<lambda>r. 0 \<le> allowance (snd r) \<and> allowance (snd r) \<le> 2)
     (consume_calls (WebSocketLimiter 2 0) [0, 0, 0, 1/4, 3])"
  using allowance_within_bounds [of 2 0 "[0, 0, 0, 1/4, 3]"]
  by (simp add: consume_def WebSocketLimiter_def Let_def)

subsection \<open>In binary64 arithmetic\<close>

text \<open>The exponent is the one of the binade of \<open>x\<close>, and the rounded value is within half a
  unit in the last place of \<open>x\<close>.\<close>

lemma exponent_bounds:
  assumes "x \<noteq> 0"
  shows "2 powi exponent x \<le> \<bar>x\<bar> \<and> \<bar>x\<bar> < 2 powi (exponent x + 1)"
proof (cases "1 \<le> \<bar>x\<bar>")
  case True
  define n where "n = \<lfloor>\<bar>x\<bar>\<rfloor>"
  define e where "e = bitlen n - 1"
  have n: "0 < n" using True by (simp add: n_def)
  have ex: "exponent x = e" using True by (simp add: exponent_def e_def n_def)
  have e0: "0 \<le> e" using n by (simp add: e_def bitlen_alt_def)
  from bitlen_bounds [OF n] have b: "2 ^ nat e \<le> n" "n < 2 ^ nat (e + 1)"
    by (simp_all add: e_def)
  have "real_of_int (2 ^ nat e) \<le> real_of_int n"
    using b(1) by (rule of_int_le_iff [THEN iffD2])
  also have "\<dots> \<le> \<bar>x\<bar>" by (simp add: n_def)
  finally have low: "2 powi e \<le> \<bar>x\<bar>"
    using e0 by (simp add: power_int_nonneg_exp)
  have "n + 1 \<le> 2 ^ nat (e + 1)" using b(2) by simp
  then have "real_of_int (n + 1) \<le> real_of_int (2 ^ nat (e + 1))"
    by (rule of_int_le_iff [THEN iffD2])
  moreover have "\<bar>x\<bar> < real_of_int (n + 1)"
    unfolding n_def by linarith
  ultimately have "\<bar>x\<bar> < 2 powi (e + 1)"
    using e0 by (simp add: power_int_nonneg_exp)
  with low ex show ?thesis by simp
next
  case False
  define y where "y = 1 / \<bar>x\<bar>"
  define m where "m = \<lceil>y\<rceil> - 1"
  define j where "j = bitlen m"
  have a: "0 < \<bar>x\<bar>" "\<bar>x\<bar> < 1" using assms False by simp_all
  then have y1: "1 < y" by (simp add: y_def)
  then have m: "0 < m" unfolding m_def by linarith
  have ex: "exponent x = - j" using False by (simp add: exponent_def j_def m_def y_def)
  have j1: "1 \<le> j" using m by (simp add: j_def bitlen_alt_def)
  from bitlen_bounds [OF m] have b: "2 ^ nat (j - 1) \<le> m" "m < 2 ^ nat j"
    by (simp_all add: j_def)
  have "y \<le> real_of_int (m + 1)" unfolding m_def by simp
  also have "m + 1 \<le> 2 ^ nat j" using b(2) by simp
  then have "real_of_int (m + 1) \<le> real_of_int (2 ^ nat j)"
    by (rule of_int_le_iff [THEN iffD2])
  finally have up: "y \<le> 2 ^ nat j" by simp
  have "real_of_int (2 ^ nat (j - 1)) \<le> real_of_int m"
    using b(1) by (rule of_int_le_iff [THEN iffD2])
  then have "2 ^ nat (j - 1) \<le> real_of_int m" by simp
  moreover have "real_of_int m < y" unfolding m_def by linarith
  ultimately have lo: "2 ^ nat (j - 1) < y" by linarith
  have "1 \<le> 2 ^ nat j * \<bar>x\<bar>"
    using up a(1) unfolding y_def by (simp only: pos_divide_le_eq)
  then have "1 \<le> \<bar>x\<bar> * 2 ^ nat j" by (metis mult.commute)
  moreover have "(0::real) < 2 ^ nat j" by simp
  ultimately have "1 / 2 ^ nat j \<le> \<bar>x\<bar>"
    by (simp only: pos_divide_le_eq)
  moreover have "(2::real) powi (- j) = 1 / 2 ^ nat j"
    using j1 by (simp add: power_int_minus power_int_nonneg_exp inverse_eq_divide)
  ultimately have low: "2 powi (- j) \<le> \<bar>x\<bar>" by simp
  have "2 ^ nat (j - 1) * \<bar>x\<bar> < 1"
    using lo a(1) unfolding y_def by (simp only: pos_less_divide_eq)
  then have "\<bar>x\<bar> * 2 ^ nat (j - 1) < 1" by (metis mult.commute)
  moreover have "(0::real) < 2 ^ nat (j - 1)" by simp
  ultimately have "\<bar>x\<bar> < 1 / 2 ^ nat (j - 1)"
    by (simp only: pos_less_divide_eq)
  moreover have "(2::real) powi (- j + 1) = 1 / 2 ^ nat (j - 1)"
  proof -
    have "- j + 1 = - (j - 1)" by simp
    then have "(2::real) powi (- j + 1) = inverse (2 powi (j - 1))"
      by (simp only: power_int_minus)
    then show ?thesis
      using j1 by (simp add: power_int_nonneg_exp inverse_eq_divide)
  qed
  ultimately have "\<bar>x\<bar> < 2 powi (- j + 1)" by simp
  with low ex show ?thesis by simp
qed

lemma round_even_near: "\<bar>real_of_int (round_even y) - y\<bar> \<le> 1 / 2"
  unfolding round_even_def Let_def by (auto simp: abs_if) linarith+

lemma binary64_near:
  "\<bar>binary64 x - x\<bar> \<le> 2 powi (exponent x - 53)"
proof (cases "x = 0")
  case True
  then show ?thesis by (simp add: binary64_def)
next
  case False
  define u where "u = (2::real) powi (exponent x - 52)"
  define y where "y = x * 2 powi (52 - exponent x)"
  have u: "0 < u" by (simp add: u_def)
  have "2 powi (52 - exponent x) * u = (2::real) powi ((52 - exponent x) + (exponent x - 52))"
    unfolding u_def by (rule power_int_add [symmetric]) simp
  then have xu: "y * u = x" by (simp add: y_def)
  have "binary64 x = real_of_int (round_even y) * u"
    using False by (simp add: binary64_def y_def u_def)
  then have "binary64 x - x = real_of_int (round_even y) * u - y * u" by (simp add: xu)
  then have "binary64 x - x = (real_of_int (round_even y) - y) * u"
    by (simp add: algebra_simps)
  then have "\<bar>binary64 x - x\<bar> = \<bar>real_of_int (round_even y) - y\<bar> * u"
    using u by (simp add: abs_mult)
  also have "\<dots> \<le> 1 / 2 * u"
    using round_even_near [of y] u by (intro mult_right_mono) simp_all
  also have "1 / 2 * u = 2 powi (exponent x - 53)"
  proof -
    have "(2::real) powi ((exponent x - 53) + 1) = 2 powi (exponent x - 53) * 2 powi 1"
      by (rule power_int_add) simp
    then show ?thesis by (simp add: u_def)
  qed
  finally show ?thesis .
qed
























section \<open>Properties of the registry\<close>

lemma disconnect_remove1:
  "disconnect ws self = self\<lparr>active_connections := remove1 ws (active_connections self)\<rparr>"
  by (simp add: disconnect_def remove1_idem)

lemma fold_disconnect:
  "fold disconnect ds self = self\<lparr>active_connections := fold remove1 ds (active_connections self)\<rparr>"
  by (induction ds arbitrary: self) (simp_all add: disconnect_remove1)

lemma distinct_fold_remove1: "distinct xs \<Longrightarrow> distinct (fold remove1 ds xs)"
  by (induction ds arbitrary: xs) simp_all

lemma set_fold_remove1: "set (fold remove1 ds xs) \<subseteq> set xs"
proof (induction ds arbitrary: xs)
  case Nil
  then show ?case by simp
next
  case (Cons d ds)
  from Cons.IH [of "remove1 d xs"] set_remove1_subset [of d xs] show ?case by auto
qed

lemma sends_to_registered_disconnects:
  "sends_to_registered registry (map Disconnected ds @ events)
     = sends_to_registered (fold remove1 ds registry) events"
  by (induction ds arbitrary: registry) simp_all

lemma sends_to_registered_then_disconnects:
  "sends_to_registered registry events \<Longrightarrow>
   sends_to_registered registry (events @ map Disconnected ds)"
proof (induction registry events rule: sends_to_registered.induct)
  case (1 registry)
  from sends_to_registered_disconnects [of registry ds "[]"] show ?case by simp
qed simp_all

lemma sends_to_registered_member:
  "sends_to_registered registry events \<Longrightarrow>
   Sent c m \<in> set events \<or> Send_failed c \<in> set events \<Longrightarrow> c \<in> set registry"
proof (induction registry events rule: sends_to_registered.induct)
  case (4 registry d events)
  then have "c \<in> set (remove1 d registry)" by auto
  then show ?case using set_remove1_subset [of d registry] by auto
qed auto

lemma delivery_pass_sends_to_registered:
  "sends_to_registered (active_connections self)
     (snd (snd (snd (delivery_pass send_json others message self i))))"
proof (induction send_json others message self i rule: delivery_pass.induct)
  case (1 send_json others message self i)
  show ?case
  proof (cases "i < length (active_connections self)")
    case False
    then show ?thesis by (simp add: delivery_pass.simps [of send_json others message self i])
  next
    case True
    define connection where "connection = active_connections self ! i"
    define meanwhile where "meanwhile = (case others of [] \<Rightarrow> [] | ds # later \<Rightarrow> ds)"
    define self' where "self' = fold disconnect meanwhile self"
    obtain raised self'' disconnected events where
      rec: "delivery_pass send_json (tl others) message self' (Suc i)
              = (raised, self'', disconnected, events)"
      by (cases "delivery_pass send_json (tl others) message self' (Suc i)") auto
    have mem: "connection \<in> set (active_connections self)"
      using True by (simp add: connection_def)
    have reg: "active_connections self' = fold remove1 meanwhile (active_connections self)"
      by (simp add: self'_def fold_disconnect)
    show ?thesis
    proof (cases "send_json connection message")
      case None
      from "1.IH"(1) [OF True connection_def meanwhile_def self'_def None] rec
      have "sends_to_registered (active_connections self') events" by simp
      then show ?thesis
        using True None rec mem reg
        by (simp add: delivery_pass.simps [of send_json others message self i] Let_def
            connection_def [symmetric] meanwhile_def [symmetric] self'_def [symmetric]
            sends_to_registered_disconnects)
    next
      case (Some e)
      show ?thesis
      proof (cases "is_Exception e")
        case ex: True
        from "1.IH"(2) [OF True connection_def meanwhile_def self'_def Some ex] rec
        have "sends_to_registered (active_connections self') events" by simp
        then show ?thesis
          using True Some ex rec mem reg
          by (simp add: delivery_pass.simps [of send_json others message self i] Let_def
              connection_def [symmetric] meanwhile_def [symmetric] self'_def [symmetric]
              sends_to_registered_disconnects)
      next
        case nex: False
        from sends_to_registered_disconnects [of "active_connections self" meanwhile "[]"]
        have "sends_to_registered (active_connections self) (map Disconnected meanwhile)"
          by simp
        then show ?thesis
          using True Some nex mem
          by (simp add: delivery_pass.simps [of send_json others message self i] Let_def
              connection_def [symmetric] meanwhile_def [symmetric] self'_def [symmetric])
      qed
    qed
  qed
qed

lemma delivery_pass_registry:
  "\<exists>ds. active_connections (fst (snd (delivery_pass send_json others message self i)))
          = fold remove1 ds (active_connections self)"
proof (induction send_json others message self i rule: delivery_pass.induct)
  case (1 send_json others message self i)
  show ?case
  proof (cases "i < length (active_connections self)")
    case False
    then show ?thesis
      by (intro exI [of _ "[]"]) (simp add: delivery_pass.simps [of send_json others message self i])
  next
    case True
    define connection where "connection = active_connections self ! i"
    define meanwhile where "meanwhile = (case others of [] \<Rightarrow> [] | ds # later \<Rightarrow> ds)"
    define self' where "self' = fold disconnect meanwhile self"
    obtain raised self'' disconnected events where
      rec: "delivery_pass send_json (tl others) message self' (Suc i)
              = (raised, self'', disconnected, events)"
      by (cases "delivery_pass send_json (tl others) message self' (Suc i)") auto
    have reg: "active_connections self' = fold remove1 meanwhile (active_connections self)"
      by (simp add: self'_def fold_disconnect)
    show ?thesis
    proof (cases "send_json connection message")
      case None
      from "1.IH"(1) [OF True connection_def meanwhile_def self'_def None] rec
      obtain ds where "active_connections self'' = fold remove1 ds (active_connections self')"
        by auto
      then have "active_connections self'' = fold remove1 (meanwhile @ ds) (active_connections self)"
        by (simp add: reg)
      then show ?thesis
        using True None rec
        by (intro exI [of _ "meanwhile @ ds"])
          (simp add: delivery_pass.simps [of send_json others message self i] Let_def
            connection_def [symmetric] meanwhile_def [symmetric] self'_def [symmetric])
    next
      case (Some e)
      show ?thesis
      proof (cases "is_Exception e")
        case ex: True
        from "1.IH"(2) [OF True connection_def meanwhile_def self'_def Some ex] rec
        obtain ds where "active_connections self'' = fold remove1 ds (active_connections self')"
          by auto
        then have "active_connections self'' = fold remove1 (meanwhile @ ds) (active_connections self)"
          by (simp add: reg)
        then show ?thesis
          using True Some ex rec
          by (intro exI [of _ "meanwhile @ ds"])
            (simp add: delivery_pass.simps [of send_json others message self i] Let_def
              connection_def [symmetric] meanwhile_def [symmetric] self'_def [symmetric])
      next
        case nex: False
        then show ?thesis
          using True Some reg
          by (intro exI [of _ meanwhile])
            (simp add: delivery_pass.simps [of send_json others message self i] Let_def
              connection_def [symmetric] meanwhile_def [symmetric] self'_def [symmetric])
      qed
    qed
  qed
qed

lemma broadcast_sends_to_registered:
  "sends_to_registered (active_connections self)
     (snd (snd (broadcast send_json others message self)))"
proof (cases "active_connections self = []")
  case True
  then show ?thesis by (simp add: broadcast_def)
next
  case False
  obtain raised self' disconnected events where
    p: "delivery_pass send_json others message self 0 = (raised, self', disconnected, events)"
    by (cases "delivery_pass send_json others message self 0") auto
  from delivery_pass_sends_to_registered [of self send_json others message 0] p
  have "sends_to_registered (active_connections self) events" by simp
  then show ?thesis
    using False p sends_to_registered_then_disconnects [of "active_connections self" events disconnected]
    by (cases raised) (simp_all add: broadcast_def)
qed

lemma broadcast_registry:
  "\<exists>ds. active_connections (fst (snd (broadcast send_json others message self)))
          = fold remove1 ds (active_connections self)"
proof (cases "active_connections self = []")
  case True
  then show ?thesis
    by (intro exI [of _ "[]"]) (simp add: broadcast_def)
next
  case False
  obtain raised self' disconnected events where
    p: "delivery_pass send_json others message self 0 = (raised, self', disconnected, events)"
    by (cases "delivery_pass send_json others message self 0") auto
  from delivery_pass_registry [of send_json others message self 0] p
  obtain ds where ds: "active_connections self' = fold remove1 ds (active_connections self)"
    by auto
  show ?thesis
  proof (cases raised)
    case None
    with p False ds show ?thesis
      by (intro exI [of _ "ds @ disconnected"]) (simp add: broadcast_def fold_disconnect)
  next
    case (Some e)
    with p False ds show ?thesis
      by (intro exI [of _ ds]) (simp add: broadcast_def)
  qed
qed

lemma call_step_registry_ok:
  assumes "registry_ok state"
  shows "registry_ok (call_step state c)"
proof (cases c)
  case (Connect ws outcome)
  with assms show ?thesis
    by (cases outcome) (auto simp: registry_ok_def connect_def accept_def)
next
  case (Disconnect ws)
  with assms show ?thesis
    by (auto simp: registry_ok_def disconnect_remove1 dest: notin_set_remove1)
next
  case (Broadcast send_json others message)
  from broadcast_registry [of send_json others message "fst state"]
  obtain ds where "active_connections (fst (snd (broadcast send_json others message (fst state))))
          = fold remove1 ds (active_connections (fst state))" by auto
  with assms Broadcast set_fold_remove1 [of ds "active_connections (fst state)"]
  show ?thesis
    by (auto simp: registry_ok_def distinct_fold_remove1)
qed

lemma run_calls_registry_ok:
  "registry_ok state \<Longrightarrow> registry_ok (run_calls state calls)"
  by (induction calls arbitrary: state) (simp_all add: call_step_registry_ok)

lemma fresh_application_ok: "registry_ok fresh_application"
  by (simp add: registry_ok_def fresh_application_def ConnectionManager_def)

lemma delivery_pass_undisturbed:
  assumes "\<forall>ds\<in>set others. ds = []"
    and "\<forall>c\<in>set (active_connections self). \<forall>e. send_json c message = Some e \<longrightarrow> is_Exception e"
  shows "delivery_pass send_json others message self i =
     (None, self,
      filter (\<lambda>c. send_json c message \<noteq> None) (drop i (active_connections self)),
      map (\<lambda>c. if send_json c message = None then Sent c message else Send_failed c)
        (drop i (active_connections self)))"
  using assms
proof (induction send_json others message self i rule: delivery_pass.induct)
  case (1 send_json others message self i)
  show ?case
  proof (cases "i < length (active_connections self)")
    case False
    then show ?thesis by (simp add: delivery_pass.simps [of send_json others message self i])
  next
    case True
    define connection where "connection = active_connections self ! i"
    define meanwhile where "meanwhile = (case others of [] \<Rightarrow> [] | ds # later \<Rightarrow> ds)"
    define self' where "self' = fold disconnect meanwhile self"
    have m: "meanwhile = []"
      using "1.prems"(1) by (cases others) (simp_all add: meanwhile_def)
    then have s: "self' = self" by (simp add: self'_def)
    have tl: "\<forall>ds\<in>set (tl others). ds = []"
      using "1.prems"(1) by (cases others) simp_all
    have dr: "drop i (active_connections self) = connection # drop (Suc i) (active_connections self)"
      using True by (simp add: connection_def Cons_nth_drop_Suc)
    have mem: "connection \<in> set (active_connections self)"
      using True by (simp add: connection_def)
    show ?thesis
    proof (cases "send_json connection message")
      case None
      from "1.IH"(1) [OF True connection_def meanwhile_def self'_def None tl] "1.prems"(2) s
      show ?thesis
        using True None m
        by (simp add: delivery_pass.simps [of send_json others message self i] Let_def
            connection_def [symmetric] meanwhile_def [symmetric] dr)
    next
      case (Some e)
      then have ex: "is_Exception e" using "1.prems"(2) mem by blast
      from "1.IH"(2) [OF True connection_def meanwhile_def self'_def Some ex tl] "1.prems"(2) s
      show ?thesis
        using True Some ex m
        by (simp add: delivery_pass.simps [of send_json others message self i] Let_def
            connection_def [symmetric] meanwhile_def [symmetric] dr)
    qed
  qed
qed

lemma fold_remove1_failed:
  "\<forall>y\<in>set ys. \<not> P y \<Longrightarrow> fold remove1 (filter P xs) (ys @ xs) = ys @ filter (\<lambda>x. \<not> P x) xs"
proof (induction xs arbitrary: ys)
  case Nil
  then show ?case by simp
next
  case (Cons x xs)
  show ?case
  proof (cases "P x")
    case True
    then have "x \<notin> set ys" using Cons.prems by auto
    then have "remove1 x (ys @ x # xs) = ys @ xs"
      by (simp add: remove1_append)
    with True Cons.IH [OF Cons.prems] show ?thesis by simp
  next
    case False
    with Cons.prems have "\<forall>y\<in>set (ys @ [x]). \<not> P y" by simp
    from Cons.IH [OF this] False show ?thesis by simp
  qed
qed

lemma broadcast_undisturbed:
  assumes "\<forall>ds\<in>set others. ds = []"
    and "\<forall>c\<in>set (active_connections self). \<forall>e. send_json c message = Some e \<longrightarrow> is_Exception e"
  shows "broadcast send_json others message self =
     (None,
      self\<lparr>active_connections := filter (\<lambda>c. send_json c message = None) (active_connections self)\<rparr>,
      map (\<lambda>c. if send_json c message = None then Sent c message else Send_failed c)
          (active_connections self)
      @ map Disconnected (filter (\<lambda>c. send_json c message \<noteq> None) (active_connections self)))"
proof (cases "active_connections self = []")
  case True
  then show ?thesis by (simp add: broadcast_def)
next
  case False
  have "fold remove1 (filter (\<lambda>c. send_json c message \<noteq> None) (active_connections self))
          ([] @ active_connections self)
        = [] @ filter (\<lambda>c. \<not> send_json c message \<noteq> None) (active_connections self)"
    by (rule fold_remove1_failed) simp
  moreover note delivery_pass_undisturbed
    [where others = others and self = self and send_json = send_json and message = message
       and i = 0, OF assms]
  ultimately show ?thesis
    using False by (simp add: broadcast_def fold_disconnect)
qed

text \<open>
  C1. The claim does not hold of \<open>broadcast\<close>. The loop iterates the live list and
  \<open>disconnect\<close> takes no lock: when the handler of a connection unregisters it while the
  loop awaits a send, the list shifts under the iterator and the next connection is never
  visited. Here the send to \<open>ws1\<close> fails and, during that send, the handler of \<open>ws1\<close>
  unregisters it: the loop goes on with \<open>ws3\<close>, and \<open>ws2\<close>, healthy and registered all
  along, is not sent the message. (When no connection is unregistered during the loop, the
  claim holds: \<open>broadcast_undisturbed\<close>.)
\<close>

theorem broadcast_skips_a_connection:
  "broadcast (\<lambda>c m. if c = ''ws1'' then Some OtherException else None) [[''ws1'']] ''state''
     \<lparr>active_connections = [''ws1'', ''ws2'', ''ws3'']\<rparr>
   = (None, \<lparr>active_connections = [''ws2'', ''ws3'']\<rparr>,
      [Send_failed ''ws1'', Disconnected ''ws1'', Sent ''ws3'' ''state'', Disconnected ''ws1''])
   \<and> Sent ''ws2'' ''state'' \<notin> set (snd (snd
       (broadcast (\<lambda>c m. if c = ''ws1'' then Some OtherException else None) [[''ws1'']] ''state''
          \<lparr>active_connections = [''ws1'', ''ws2'', ''ws3'']\<rparr>)))"
proof -
  let ?send = "\<lambda>(c::string) (m::string). if c = ''ws1'' then Some OtherException else None"
  have 3: "delivery_pass ?send [] ''state'' \<lparr>active_connections = [''ws2'', ''ws3'']\<rparr> (Suc (Suc 0))
             = (None, \<lparr>active_connections = [''ws2'', ''ws3'']\<rparr>, [], [])"
    by (subst delivery_pass.simps) (simp add: Let_def)
  have 2: "delivery_pass ?send [] ''state'' \<lparr>active_connections = [''ws2'', ''ws3'']\<rparr> (Suc 0)
             = (None, \<lparr>active_connections = [''ws2'', ''ws3'']\<rparr>, [], [Sent ''ws3'' ''state''])"
    by (subst delivery_pass.simps) (simp add: 3 Let_def)
  have 1: "delivery_pass ?send [[''ws1'']] ''state''
             \<lparr>active_connections = [''ws1'', ''ws2'', ''ws3'']\<rparr> 0
             = (None, \<lparr>active_connections = [''ws2'', ''ws3'']\<rparr>, [''ws1''],
                [Send_failed ''ws1'', Disconnected ''ws1'', Sent ''ws3'' ''state''])"
    by (subst delivery_pass.simps) (simp add: 2 disconnect_def Let_def)
  show ?thesis
    by (simp add: broadcast_def 1 disconnect_def)
qed

text \<open>
  C7. In every run of \<open>connect\<close>, \<open>disconnect\<close> and \<open>broadcast\<close> calls on a fresh
  application, with any handshake outcomes, any send outcomes and any connections
  unregistered by their handlers during the broadcasts: the registry never holds a
  connection twice; registering a connection that is registered raises and leaves the
  registry as it is; every send of a broadcast goes to a connection that is in the
  registry when the send starts; and once a connection has been unregistered, it is absent
  from the registry and a broadcast does not send to it.
\<close>

theorem registry_never_duplicates:
  fixes calls :: "('c, 'm) call list"
  shows "distinct (active_connections (fst (run_calls fresh_application calls)))
       \<and> (\<forall>websocket outcome.
            websocket \<in> set (active_connections (fst (run_calls fresh_application calls))) \<longrightarrow>
            fst (connect outcome websocket (run_calls fresh_application calls)) \<noteq> None \<and>
            fst (snd (connect outcome websocket (run_calls fresh_application calls)))
              = fst (run_calls fresh_application calls))
       \<and> (\<forall>(send_json :: 'c \<Rightarrow> 'm \<Rightarrow> error option) others message.
            sends_to_registered (active_connections (fst (run_calls fresh_application calls)))
              (snd (snd (broadcast send_json others message
                           (fst (run_calls fresh_application calls))))))
       \<and> (\<forall>websocket (send_json :: 'c \<Rightarrow> 'm \<Rightarrow> error option) others message.
            websocket \<notin> set (active_connections
                              (disconnect websocket (fst (run_calls fresh_application calls)))) \<and>
            Sent websocket message \<notin>
              set (snd (snd (broadcast send_json others message
                     (disconnect websocket (fst (run_calls fresh_application calls)))))) \<and>
            Send_failed websocket \<notin>
              set (snd (snd (broadcast send_json others message
                     (disconnect websocket (fst (run_calls fresh_application calls)))))))"
proof -
  define state where "state = run_calls fresh_application calls"
  have ok: "registry_ok state"
    unfolding state_def by (intro run_calls_registry_ok fresh_application_ok)
  then have d: "distinct (active_connections (fst state))"
    and sub: "set (active_connections (fst state)) \<subseteq> snd state"
    by (simp_all add: registry_ok_def)
  have again: "fst (connect outcome websocket state) \<noteq> None \<and>
      fst (snd (connect outcome websocket state)) = fst state"
    if "websocket \<in> set (active_connections (fst state))" for websocket outcome
  proof -
    from that sub have "websocket \<in> snd state" by auto
    then show ?thesis by (simp add: connect_def accept_def)
  qed
  have gone: "websocket \<notin> set (active_connections (disconnect websocket (fst state)))"
    for websocket
    using d by (simp add: disconnect_remove1)
  have silent: "Sent websocket message \<notin>
        set (snd (snd (broadcast send_json others message (disconnect websocket (fst state))))) \<and>
      Send_failed websocket \<notin>
        set (snd (snd (broadcast send_json others message (disconnect websocket (fst state)))))"
    for websocket and send_json :: "'c \<Rightarrow> 'm \<Rightarrow> error option" and others message
    using gone [of websocket]
      sends_to_registered_member
        [OF broadcast_sends_to_registered
          [of "disconnect websocket (fst state)" send_json others message],
         of websocket message]
    by auto
  have mon: "sends_to_registered (active_connections (fst state))
      (snd (snd (broadcast send_json others message (fst state))))"
    for send_json :: "'c \<Rightarrow> 'm \<Rightarrow> error option" and others message
    by (rule broadcast_sends_to_registered)
  show ?thesis
    unfolding state_def [symmetric]
    using d again gone silent mon
    by simp
qed

theorem registry_never_duplicates_witness:
  "active_connections (fst (run_calls fresh_application
      [Connect ''ws1'' None, Connect ''ws2'' None, Connect ''ws1'' None, Disconnect ''ws1'',
       Connect ''ws3'' (Some OtherException), Connect ''ws1'' None,
       Broadcast (\<lambda>c m. None) [] ''state''])) = [''ws2'']
   \<and> distinct (active_connections (fst (run_calls fresh_application
      [Connect ''ws1'' None, Connect ''ws2'' None, Connect ''ws1'' None, Disconnect ''ws1'',
       Connect ''ws3'' (Some OtherException), Connect ''ws1'' None,
       Broadcast (\<lambda>c m. None) [] ''state''])))
   \<and> fst (snd (connect None ''ws2'' (run_calls fresh_application
      [Connect ''ws1'' None, Connect ''ws2'' None, Connect ''ws1'' None, Disconnect ''ws1'',
       Connect ''ws3'' (Some OtherException), Connect ''ws1'' None,
       Broadcast (\<lambda>c m. None) [] ''state''])))
     = \<lparr>active_connections = [''ws2'']\<rparr>"
proof -
  let ?calls = "[Connect ''ws1'' None, Connect ''ws2'' None, Connect ''ws1'' None,
       Disconnect ''ws1'', Connect ''ws3'' (Some OtherException), Connect ''ws1'' None,
       Broadcast (\<lambda>c m. None) [] ''state'']"
  have b: "broadcast (\<lambda>c m. None) [] ''state'' \<lparr>active_connections = [''ws2'']\<rparr>
            = (None, \<lparr>active_connections = [''ws2'']\<rparr>, [Sent ''ws2'' ''state''])"
    using broadcast_undisturbed
      [of "[]" "\<lparr>active_connections = [''ws2'']\<rparr>" "\<lambda>c m. None" "''state''"]
    by simp
  have r: "fst (run_calls fresh_application ?calls) = \<lparr>active_connections = [''ws2'']\<rparr>"
    by (simp add: fresh_application_def ConnectionManager_def connect_def accept_def
        disconnect_def b)
  from registry_never_duplicates [of ?calls] r
  show ?thesis by simp
qed

section \<open>Properties of \<open>lifespan\<close>\<close>

text \<open>
  C8, as the code has it. At startup the engine is constructed first, then the
  health-monitor task (\<open>process_frames_background\<close>) is created, then the state-broadcast
  task (\<open>broadcast_websocket_updates\<close>). At shutdown of the application so started, when
  neither \<open>await\<close> raises anything but the cancellation and \<open>stop_tracking\<close> returns, the
  health monitor is cancelled and awaited, then the state broadcast is cancelled and
  awaited, then tracking is stopped and the webcam, if the engine holds one, is released.
  Whatever the outcomes are, the webcam is released only at the end of that whole sequence.
\<close>

theorem lifecycle_order:
  assumes "lifespan_startup (Inr tracker) g = (Inr g', started)"
  shows "started = [Engine_constructed,
                    Task_created Process_frames_background,
                    Task_created Broadcast_websocket_updates]
       \<and> (awaited1 \<in> {None, Some CancelledError} \<longrightarrow>
          awaited2 \<in> {None, Some CancelledError} \<longrightarrow>
          stop_tracking tracker = Inr tracker' \<longrightarrow>
          lifespan_shutdown awaited1 awaited2 stop_tracking g' =
            [Task_cancelled Process_frames_background, Task_awaited Process_frames_background,
             Task_cancelled Broadcast_websocket_updates, Task_awaited Broadcast_websocket_updates,
             Tracking_stopped] @ (if webcam tracker' \<noteq> None then [Webcam_released] else []))
       \<and> (Webcam_released \<in> set (lifespan_shutdown awaited1 awaited2 stop_tracking g') \<longrightarrow>
          lifespan_shutdown awaited1 awaited2 stop_tracking g' =
            [Task_cancelled Process_frames_background, Task_awaited Process_frames_background,
             Task_cancelled Broadcast_websocket_updates, Task_awaited Broadcast_websocket_updates,
             Tracking_stopped, Webcam_released])"
proof -
  let ?full = "[Task_cancelled Process_frames_background, Task_awaited Process_frames_background,
             Task_cancelled Broadcast_websocket_updates, Task_awaited Broadcast_websocket_updates,
             Tracking_stopped]"
  from assms have g': "eye_tracker g' = Some tracker"
      "frame_processing_task g' = Some Process_frames_background"
      "websocket_broadcast_task g' = Some Broadcast_websocket_updates"
    and st: "started = [Engine_constructed,
                    Task_created Process_frames_background,
                    Task_created Broadcast_websocket_updates]"
    by (auto simp: lifespan_startup_def)
  have normal: "lifespan_shutdown awaited1 awaited2 stop_tracking g' =
      ?full @ (if webcam t' \<noteq> None then [Webcam_released] else [])"
    if "awaited1 \<in> {None, Some CancelledError}" "awaited2 \<in> {None, Some CancelledError}"
      "stop_tracking tracker = Inr t'" for t'
  proof -
    have "cancel_and_await (frame_processing_task g') awaited1 =
        (None, [Task_cancelled Process_frames_background, Task_awaited Process_frames_background])"
      using that(1) by (auto simp: cancel_and_await_def g')
    moreover have "cancel_and_await (websocket_broadcast_task g') awaited2 =
        (None, [Task_cancelled Broadcast_websocket_updates, Task_awaited Broadcast_websocket_updates])"
      using that(2) by (auto simp: cancel_and_await_def g')
    ultimately show ?thesis
      using that(3) by (simp add: lifespan_shutdown_def g')
  qed
  have released: "lifespan_shutdown awaited1 awaited2 stop_tracking g' = ?full @ [Webcam_released]"
    if rel: "Webcam_released \<in> set (lifespan_shutdown awaited1 awaited2 stop_tracking g')"
  proof -
    have a1: "awaited1 \<in> {None, Some CancelledError}"
    proof (rule ccontr)
      assume "\<not> ?thesis"
      then obtain e where "awaited1 = Some e" "e \<noteq> CancelledError" by (cases awaited1) auto
      then have "lifespan_shutdown awaited1 awaited2 stop_tracking g' =
          [Task_cancelled Process_frames_background, Task_awaited Process_frames_background,
           Error_logged]"
        by (simp add: lifespan_shutdown_def cancel_and_await_def g')
      with rel show False by simp
    qed
    then have c1: "cancel_and_await (frame_processing_task g') awaited1 =
        (None, [Task_cancelled Process_frames_background, Task_awaited Process_frames_background])"
      by (auto simp: cancel_and_await_def g')
    have a2: "awaited2 \<in> {None, Some CancelledError}"
    proof (rule ccontr)
      assume "\<not> ?thesis"
      then obtain e where "awaited2 = Some e" "e \<noteq> CancelledError" by (cases awaited2) auto
      then have "cancel_and_await (websocket_broadcast_task g') awaited2 =
          (Some e, [Task_cancelled Broadcast_websocket_updates,
                    Task_awaited Broadcast_websocket_updates])"
        by (simp add: cancel_and_await_def g')
      with c1 have "Webcam_released \<notin> set (lifespan_shutdown awaited1 awaited2 stop_tracking g')"
        by (simp add: lifespan_shutdown_def)
      with rel show False by simp
    qed
    show ?thesis
    proof (cases "stop_tracking tracker")
      case (Inl e)
      with c1 a2 have "Webcam_released \<notin> set (lifespan_shutdown awaited1 awaited2 stop_tracking g')"
        by (auto simp: lifespan_shutdown_def cancel_and_await_def g')
      with rel show ?thesis by simp
    next
      case (Inr t')
      from normal [OF a1 a2 Inr] rel show ?thesis
        by (cases "webcam t'") auto
    qed
  qed
  show ?thesis
  proof (intro conjI impI)
    show "started = [Engine_constructed,
                    Task_created Process_frames_background,
                    Task_created Broadcast_websocket_updates]" by (fact st)
  next
    assume "awaited1 \<in> {None, Some CancelledError}" "awaited2 \<in> {None, Some CancelledError}"
      "stop_tracking tracker = Inr tracker'"
    then show "lifespan_shutdown awaited1 awaited2 stop_tracking g' =
      ?full @ (if webcam tracker' \<noteq> None then [Webcam_released] else [])"
      by (rule normal)
  next
    assume "Webcam_released \<in> set (lifespan_shutdown awaited1 awaited2 stop_tracking g')"
    from released [OF this]
    show "lifespan_shutdown awaited1 awaited2 stop_tracking g' =
            [Task_cancelled Process_frames_background, Task_awaited Process_frames_background,
             Task_cancelled Broadcast_websocket_updates, Task_awaited Broadcast_websocket_updates,
             Tracking_stopped, Webcam_released]" by simp
  qed
qed

theorem lifecycle_order_witness:
  "lifespan_startup
      (Inr \<lparr>current_user_id = None, current_module_id = None, current_section_id = None,
            webcam = Some 0\<rparr>) initial_globals
    = (Inr \<lparr>eye_tracker = Some \<lparr>current_user_id = None, current_module_id = None,
             current_section_id = None, webcam = Some 0\<rparr>,
           frame_processing_task = Some Process_frames_background,
           websocket_broadcast_task = Some Broadcast_websocket_updates\<rparr>,
       [Engine_constructed, Task_created Process_frames_background,
        Task_created Broadcast_websocket_updates])
   \<and> lifespan_shutdown (Some CancelledError) None Inr
       \<lparr>eye_tracker = Some \<lparr>current_user_id = None, current_module_id = None,
             current_section_id = None, webcam = Some 0\<rparr>,
           frame_processing_task = Some Process_frames_background,
           websocket_broadcast_task = Some Broadcast_websocket_updates\<rparr>
     = [Task_cancelled Process_frames_background, Task_awaited Process_frames_background,
        Task_cancelled Broadcast_websocket_updates, Task_awaited Broadcast_websocket_updates,
        Tracking_stopped, Webcam_released]"
proof -
  let ?t = "\<lparr>current_user_id = None, current_module_id = None, current_section_id = None,
            webcam = Some (0::nat)\<rparr>"
  let ?g = "\<lparr>eye_tracker = Some ?t,
           frame_processing_task = Some Process_frames_background,
           websocket_broadcast_task = Some Broadcast_websocket_updates\<rparr>"
  have s: "lifespan_startup (Inr ?t) initial_globals
    = (Inr ?g, [Engine_constructed, Task_created Process_frames_background,
        Task_created Broadcast_websocket_updates])"
    by (simp add: lifespan_startup_def initial_globals_def)
  have a: "Some CancelledError \<in> {None, Some CancelledError}"
    and b: "None \<in> {None, Some CancelledError}"
    and c: "Inr ?t = (Inr ?t :: error + eye_tracking_service)" by simp_all
  from lifecycle_order [OF s, of "Some CancelledError" None Inr ?t, THEN conjunct2, THEN conjunct1,
      rule_format, OF a b c] s
  show ?thesis by simp
qed

text \<open>
  The order the specification gives for startup (state broadcast before health monitor) is
  not the order of the code.
\<close>

theorem startup_order_counterexample:
  "precedes (Task_created Process_frames_background) (Task_created Broadcast_websocket_updates)
     (snd (lifespan_startup
        (Inr \<lparr>current_user_id = None, current_module_id = None, current_section_id = None,
              webcam = None\<rparr>) initial_globals))
   \<and> \<not> precedes (Task_created Broadcast_websocket_updates) (Task_created Process_frames_background)
     (snd (lifespan_startup
        (Inr \<lparr>current_user_id = None, current_module_id = None, current_section_id = None,
              webcam = None\<rparr>) initial_globals))"
  by (simp add: lifespan_startup_def precedes_def)

section \<open>Properties of the frame pipeline\<close>

lemma handle_message_cases:
  "handle_message ext cfg limiter message =
     (case FramePayload (fst message) of
        Inl exc \<Rightarrow> (Sent_error ''Invalid payload'', limiter, [])
      | Inr payload \<Rightarrow>
          if fst (consume limiter (snd message))
          then (case fst (process_frame ext cfg payload) of
                  Inl e \<Rightarrow> Raised e | Inr result \<Rightarrow> Sent_result result,
                snd (consume limiter (snd message)),
                Admission True # snd (process_frame ext cfg payload))
          else (Sent_error ''Rate limit exceeded'', snd (consume limiter (snd message)),
                [Admission False]))"
  by (cases "consume limiter (snd message)"; cases "process_frame ext cfg (projr (FramePayload (fst message)))")
     (auto simp: handle_message_def split: sum.splits bool.splits)

lemma process_frame_missing_ids:
  assumes "\<not> truthy (user_id payload) \<or> \<not> truthy (module_id payload)"
  shows "process_frame ext cfg payload =
           (Inl (HTTPException (if browser_streaming_enabled cfg then 400 else 503)), [])"
  using assms by (auto simp: process_frame_def)

lemma process_frame_disabled:
  "\<not> browser_streaming_enabled cfg \<Longrightarrow> process_frame ext cfg payload = (Inl (HTTPException 503), [])"
  by (simp add: process_frame_def)

lemma FramePayload_Inr: "FramePayload parsed = Inr payload \<Longrightarrow> parsed = Some payload"
  by (auto simp: FramePayload_def split: option.splits if_splits)

lemma receive_browser_frame_dispatch_ids:
  assumes "Dispatch img u m sid \<in> set (snd (receive_browser_frame ext tracker_global now payload))"
  shows "truthy u \<and> truthy m"
  using assms
  by (auto simp: receive_browser_frame_def Let_def
      split: option.splits prod.splits if_splits sum.splits)

lemma receive_browser_frame_missing:
  assumes "\<not> truthy (py_or (user_id payload) (current_user_id tracker)) \<or>
           \<not> truthy (py_or (module_id payload) (current_module_id tracker))"
  shows "fst (receive_browser_frame ext (Some tracker) now payload) = Inl (HTTPException 400)"
    and "\<not> list_ex is_Dispatch (snd (receive_browser_frame ext (Some tracker) now payload))"
  using assms
  by (auto simp: receive_browser_frame_def Let_def
      split: option.splits prod.splits if_splits sum.splits)

lemma decode_frame_oversize:
  assumes "split_comma data_url = Some (header, b64_data)"
    and "b64decode ext b64_data = Some raw_bytes"
    and "int (length raw_bytes) > max_frame_kb cfg * 1024"
  shows "decode_frame ext cfg data_url = (Inl (HTTPException 413), [Transport_decode])"
  using assms by (simp add: decode_frame_def)

lemma process_frame_oversize:
  assumes "split_comma (frame_base64 payload) = Some (header, b64_data)"
    and "b64decode ext b64_data = Some raw_bytes"
    and "int (length raw_bytes) > max_frame_kb cfg * 1024"
  shows "process_frame ext cfg payload =
     (if \<not> browser_streaming_enabled cfg then (Inl (HTTPException 503), [])
      else if \<not> truthy (user_id payload) \<or> \<not> truthy (module_id payload)
      then (Inl (HTTPException 400), [])
      else (Inl (HTTPException 413), [Transport_decode]))"
  by (simp add: process_frame_def decode_frame_oversize [OF assms])

lemma websocket_loop_gated:
  "list_all (\<lambda>r. (fst r = Sent_error ''Invalid payload'' \<and> snd r = []) \<or> rate_gated (snd r))
     (websocket_loop ext cfg limiter messages)"
proof (induction messages arbitrary: limiter)
  case Nil
  then show ?case by simp
next
  case (Cons message rest)
  obtain outcome limiter' tr where h: "handle_message ext cfg limiter message = (outcome, limiter', tr)"
    by (cases "handle_message ext cfg limiter message") auto
  have g: "(outcome = Sent_error ''Invalid payload'' \<and> tr = []) \<or> rate_gated tr"
    using h by (auto simp: handle_message_cases split: sum.splits if_splits)
  show ?case
    using h g Cons.IH [of limiter'] by (cases outcome) auto
qed

lemma consume_full_bucket:
  assumes "1 \<le> max_fps limiter" "allowance limiter = max_fps limiter" "last_check limiter \<le> t"
  shows "fst (consume limiter t)"
proof -
  define x where "x = (t - last_check limiter) * max_fps limiter"
  have "0 \<le> x"
    using assms by (simp add: x_def)
  then have "\<not> (if max_fps limiter < max_fps limiter + x then max_fps limiter
               else max_fps limiter + x) < 1"
    using assms(1) by auto
  then show ?thesis
    using assms(2) by (simp add: consume_def Let_def x_def split: if_splits)
qed

lemma websocket_loop_disabled:
  assumes "\<not> browser_streaming_enabled cfg"
    and "1 \<le> max_fps limiter" "allowance limiter = max_fps limiter"
    and "sorted (last_check limiter # map snd messages)"
  shows "websocket_loop ext cfg limiter messages =
           map (\<lambda>m. (Sent_error ''Invalid payload'', [])) 
               (takeWhile (\<lambda>m. isl (FramePayload (fst m))) messages)
           @ (if list_all (\<lambda>m. isl (FramePayload (fst m))) messages then []
              else [(Raised (HTTPException 503), [Admission True])])"
  using assms(4)
proof (induction messages)
  case Nil
  then show ?case by simp
next
  case (Cons message rest)
  show ?case
  proof (cases "FramePayload (fst message)")
    case (Inl exc)
    then have h: "handle_message ext cfg limiter message = (Sent_error ''Invalid payload'', limiter, [])"
      by (simp add: handle_message_def)
    have "sorted (last_check limiter # map snd rest)"
      using Cons.prems by auto
    from Cons.IH [OF this] h Inl show ?thesis by simp
  next
    case (Inr payload)
    have "last_check limiter \<le> snd message" using Cons.prems by simp
    from consume_full_bucket [OF assms(2,3) this]
    have "handle_message ext cfg limiter message =
            (Raised (HTTPException 503), snd (consume limiter (snd message)), [Admission True])"
      by (simp add: handle_message_cases Inr process_frame_disabled [OF assms(1)])
    with Inr show ?thesis by simp
  qed
qed

lemma websocket_loop_disabled_untouched:
  assumes "\<not> browser_streaming_enabled cfg"
  shows "list_all (\<lambda>r. \<not> is_Sent_result (fst r) \<and> set (snd r) \<subseteq> {Admission True, Admission False})
           (websocket_loop ext cfg limiter messages)"
proof (induction messages arbitrary: limiter)
  case Nil
  then show ?case by simp
next
  case (Cons message rest)
  obtain outcome limiter' tr where h: "handle_message ext cfg limiter message = (outcome, limiter', tr)"
    by (cases "handle_message ext cfg limiter message") auto
  have g: "\<not> is_Sent_result outcome \<and> set tr \<subseteq> {Admission True, Admission False}"
    using h by (auto simp: handle_message_cases process_frame_disabled [OF assms]
        split: sum.splits if_splits)
  show ?case
    using h g Cons.IH [of limiter'] by (cases outcome) auto
qed

lemma split_comma_sample:
  "split_comma (frame_base64 sample_payload) = Some (''data:image/png;base64'', ''AAAA'')"
  by (simp add: split_comma_def sample_payload_def)

text \<open>
  C4, as the code has it. Take a payload whose \<open>user_id\<close> or \<open>module_id\<close> is absent (or
  empty). In web\_stream\_service, \<open>process_frame\<close> and with it \<open>ingest_frame\<close> reject it
  before anything is decoded or dispatched, with status 400 when browser streaming is
  enabled and 503 when it is disabled; on the streaming channel no result is sent for it
  and the engine is not called. In fastapi\_service, \<open>receive_browser_frame\<close> first puts the
  engine's current user and module in place of an absent one; when one of the two is
  still absent after that, it answers 400 and does not call the engine; and whenever it
  calls the engine, it does so with a user and a module.
\<close>

theorem missing_ids_rejected:
  assumes "\<not> truthy (user_id payload) \<or> \<not> truthy (module_id payload)"
  shows "process_frame ext cfg payload =
           (Inl (HTTPException (if browser_streaming_enabled cfg then 400 else 503)), [])
       \<and> ingest_frame ext cfg payload =
           (Inl (HTTPException (if browser_streaming_enabled cfg then 400 else 503)), [])
       \<and> \<not> is_Sent_result (fst (handle_message ext cfg limiter (Some payload, t)))
       \<and> \<not> list_ex is_Dispatch (snd (snd (handle_message ext cfg limiter (Some payload, t))))
       \<and> (\<not> truthy (py_or (user_id payload) (current_user_id tracker)) \<or>
          \<not> truthy (py_or (module_id payload) (current_module_id tracker)) \<longrightarrow>
            fst (receive_browser_frame ext (Some tracker) now payload) = Inl (HTTPException 400) \<and>
            \<not> list_ex is_Dispatch (snd (receive_browser_frame ext (Some tracker) now payload)))
       \<and> (\<forall>img u m sid.
            Dispatch img u m sid \<in> set (snd (receive_browser_frame ext tracker_global now payload))
            \<longrightarrow> truthy u \<and> truthy m)"
proof -
  note pf = process_frame_missing_ids [OF assms, of ext cfg]
  have ws: "\<not> is_Sent_result (fst (handle_message ext cfg limiter (Some payload, t)))
       \<and> \<not> list_ex is_Dispatch (snd (snd (handle_message ext cfg limiter (Some payload, t))))"
    by (simp add: handle_message_cases pf FramePayload_def split: sum.splits)
  show ?thesis
    using pf ws receive_browser_frame_missing [of payload tracker ext now]
      receive_browser_frame_dispatch_ids [of _ _ _ _ ext tracker_global now payload]
    by (simp add: ingest_frame_def)
qed

theorem missing_ids_rejected_witness:
  "\<not> truthy (user_id (sample_payload\<lparr>user_id := None\<rparr>))
   \<and> process_frame sample_collaborators default_settings (sample_payload\<lparr>user_id := None\<rparr>)
       = (Inl (HTTPException 400), [])
   \<and> ingest_frame sample_collaborators default_settings (sample_payload\<lparr>user_id := None\<rparr>)
       = (Inl (HTTPException 400), [])
   \<and> \<not> truthy (py_or (user_id (sample_payload\<lparr>user_id := None\<rparr>))
                  (current_user_id (sample_tracker\<lparr>current_user_id := None\<rparr>)))
   \<and> fst (receive_browser_frame sample_collaborators
            (Some (sample_tracker\<lparr>current_user_id := None\<rparr>)) 9
            (sample_payload\<lparr>user_id := None\<rparr>)) = Inl (HTTPException 400)"
proof -
  let ?p = "sample_payload\<lparr>user_id := None\<rparr>"
  let ?t = "sample_tracker\<lparr>current_user_id := None\<rparr>"
  have h: "\<not> truthy (user_id ?p) \<or> \<not> truthy (module_id ?p)"
    by (simp add: truthy_def)
  have e: "browser_streaming_enabled default_settings"
    by (simp add: default_settings_def)
  have m: "\<not> truthy (py_or (user_id ?p) (current_user_id ?t))"
    by (simp add: truthy_def py_or_def)
  from missing_ids_rejected [OF h, of sample_collaborators default_settings _ _ ?t 9] e m
  show ?thesis by (simp add: truthy_def)
qed

text \<open>
  The claim as the specification states it fails in fastapi\_service: a payload without
  \<open>user_id\<close> and \<open>module_id\<close> is dispatched to the engine under the ids of the current
  tracking session.
\<close>

theorem fallback_ids_counterexample:
  "user_id (sample_payload\<lparr>user_id := None, module_id := None\<rparr>) = None
   \<and> module_id (sample_payload\<lparr>user_id := None, module_id := None\<rparr>) = None
   \<and> receive_browser_frame sample_collaborators (Some sample_tracker) 9
        (sample_payload\<lparr>user_id := None, module_id := None\<rparr>)
      = (Inr \<lparr>success = True, resp_frame_id = Some ''f1'', resp_user_id = Some ''u1'',
              resp_module_id = Some ''m1'', resp_section_id = None, resp_timestamp = Some 5,
              resp_status = [(''metrics'', 7)], resp_metrics = Some 7, resp_current_frame = 0\<rparr>,
         [Transport_decode, Image_decode, Dispatch 4 (Some ''u1'') (Some ''m1'') None])"
  using split_comma_sample
  by (simp add: receive_browser_frame_def py_or_def sample_tracker_def sample_collaborators_def
      sample_payload_def truthy_def Let_def)

text \<open>
  C5, as the code has it. In web\_stream\_service, a frame whose decoded bytes are more than
  \<open>max_frame_kb * 1024\<close> is rejected by \<open>decode_frame\<close> with status 413 right after the
  base64 decoding; \<open>process_frame\<close>, \<open>ingest_frame\<close> and the streaming channel answer
  with an error for it (503, 400 or 413, whichever check comes first) and neither decode
  an image nor call the engine.
\<close>

theorem oversize_rejected_before_image_decode:
  assumes "split_comma (frame_base64 payload) = Some (header, b64_data)"
    and "b64decode ext b64_data = Some raw_bytes"
    and "int (length raw_bytes) > max_frame_kb cfg * 1024"
  shows "decode_frame ext cfg (frame_base64 payload) = (Inl (HTTPException 413), [Transport_decode])
       \<and> isl (fst (process_frame ext cfg payload))
       \<and> untouched (snd (process_frame ext cfg payload))
       \<and> (browser_streaming_enabled cfg \<and> truthy (user_id payload) \<and> truthy (module_id payload)
            \<longrightarrow> process_frame ext cfg payload = (Inl (HTTPException 413), [Transport_decode]))
       \<and> isl (fst (ingest_frame ext cfg payload))
       \<and> untouched (snd (ingest_frame ext cfg payload))
       \<and> \<not> is_Sent_result (fst (handle_message ext cfg limiter (Some payload, t)))
       \<and> untouched (snd (snd (handle_message ext cfg limiter (Some payload, t))))"
proof -
  note pf = process_frame_oversize [OF assms]
  have 1: "isl (fst (process_frame ext cfg payload))"
    and 2: "untouched (snd (process_frame ext cfg payload))"
    by (simp_all add: pf untouched_def)
  have 3: "\<not> is_Sent_result (fst (handle_message ext cfg limiter (Some payload, t)))"
    using 1 by (auto simp: handle_message_cases isl_def dest!: FramePayload_Inr split: sum.splits)
  have 4: "untouched (snd (snd (handle_message ext cfg limiter (Some payload, t))))"
    using 2 by (auto simp: handle_message_cases untouched_def dest!: FramePayload_Inr split: sum.splits)
  show ?thesis
    using 1 2 3 4 decode_frame_oversize [OF assms] by (simp add: ingest_frame_def pf)
qed

theorem oversize_rejected_before_image_decode_witness:
  "split_comma (frame_base64 sample_payload) = Some (''data:image/png;base64'', ''AAAA'')
   \<and> b64decode (sample_collaborators\<lparr>b64decode := \<lambda>s. Some (replicate 524289 0)\<rparr>) ''AAAA''
       = Some (replicate 524289 0)
   \<and> int (length (replicate 524289 (0::byte))) > max_frame_kb default_settings * 1024
   \<and> process_frame (sample_collaborators\<lparr>b64decode := \<lambda>s. Some (replicate 524289 0)\<rparr>)
        default_settings sample_payload = (Inl (HTTPException 413), [Transport_decode])
   \<and> untouched (snd (ingest_frame (sample_collaborators\<lparr>b64decode := \<lambda>s. Some (replicate 524289 0)\<rparr>)
        default_settings sample_payload))"
proof -
  let ?ext = "sample_collaborators\<lparr>b64decode := \<lambda>s. Some (replicate 524289 0)\<rparr>"
  have b: "b64decode ?ext ''AAAA'' = Some (replicate 524289 0)"
    by simp
  have l: "int (length (replicate 524289 (0::byte))) > max_frame_kb default_settings * 1024"
    by (simp add: default_settings_def)
  have i: "browser_streaming_enabled default_settings \<and> truthy (user_id sample_payload)
           \<and> truthy (module_id sample_payload)"
    by (simp add: default_settings_def sample_payload_def truthy_def)
  from oversize_rejected_before_image_decode [OF split_comma_sample b l] i split_comma_sample b l
  show ?thesis by blast
qed

text \<open>
  The claim as the specification states it fails on the ingestion path of fastapi\_service,
  which has no size limit: a frame of 512 KB and one byte is decoded and dispatched.
\<close>

theorem unlimited_size_counterexample:
  "int (length (replicate 524289 (0::byte))) > max_frame_kb default_settings * 1024
   \<and> receive_browser_frame (sample_collaborators\<lparr>b64decode := \<lambda>s. Some (replicate 524289 0)\<rparr>)
        (Some sample_tracker) 9 sample_payload
      = (Inr \<lparr>success = True, resp_frame_id = Some ''f1'', resp_user_id = Some ''u1'',
              resp_module_id = Some ''m1'', resp_section_id = None, resp_timestamp = Some 5,
              resp_status = [(''metrics'', 7)], resp_metrics = Some 7, resp_current_frame = 0\<rparr>,
         [Transport_decode, Image_decode, Dispatch 524289 (Some ''u1'') (Some ''m1'') None])"
  using split_comma_sample
  by (simp add: receive_browser_frame_def py_or_def sample_tracker_def sample_collaborators_def
      sample_payload_def default_settings_def truthy_def Let_def)

text \<open>
  C6, as the code has it. On the streaming channel every text that parses as a frame is
  put to the limiter first: whatever is done to the frame starts with the limiter's
  verdict, and after a denial nothing else is done and the reply is the rate-limit error.
\<close>

theorem streaming_channel_rate_gated:
  "list_all (\<lambda>r. (fst r = Sent_error ''Invalid payload'' \<and> snd r = []) \<or> rate_gated (snd r))
     (websocket_frames ext cfg t0 messages)
   \<and> (FramePayload (fst message) = Inr payload \<longrightarrow>
        handle_message ext cfg limiter message =
          (if fst (consume limiter (snd message))
           then (case fst (process_frame ext cfg payload) of
                   Inl e \<Rightarrow> Raised e | Inr result \<Rightarrow> Sent_result result,
                 snd (consume limiter (snd message)),
                 Admission True # snd (process_frame ext cfg payload))
           else (Sent_error ''Rate limit exceeded'', snd (consume limiter (snd message)),
                 [Admission False])))"
  by (simp add: websocket_frames_def websocket_loop_gated handle_message_cases)

theorem streaming_channel_rate_gated_witness:
  "FramePayload (Some sample_payload) = Inr sample_payload
   \<and> handle_message sample_collaborators default_settings
        \<lparr>max_fps = 10, allowance = 1/2, last_check = 3\<rparr> (Some sample_payload, 3)
      = (Sent_error ''Rate limit exceeded'', \<lparr>max_fps = 10, allowance = 1/2, last_check = 3\<rparr>,
         [Admission False])
   \<and> list_all (\<lambda>r. (fst r = Sent_error ''Invalid payload'' \<and> snd r = []) \<or> rate_gated (snd r))
       (websocket_frames sample_collaborators default_settings 0
          [(Some sample_payload, 0), (None, 1)])"
proof -
  have p: "FramePayload (Some sample_payload) = Inr sample_payload"
    by (simp add: FramePayload_def validate_base64_def sample_payload_def)
  have c: "consume \<lparr>max_fps = 10, allowance = 1/2, last_check = 3\<rparr> 3
           = (False, \<lparr>max_fps = 10, allowance = 1/2, last_check = 3\<rparr>)"
    by (simp add: consume_def Let_def)
  from streaming_channel_rate_gated
    [of sample_collaborators default_settings 0 "[(Some sample_payload, 0), (None, 1)]"
      "(Some sample_payload, 3)" sample_payload "\<lparr>max_fps = 10, allowance = 1/2, last_check = 3\<rparr>"]
    p c
  show ?thesis by simp
qed

text \<open>
  The claim as the specification states it fails on the single-shot channel, which has no
  limiter: with a budget of one frame per second, two frames at the same instant are both
  dispatched there, while the streaming channel denies the second.
\<close>

theorem single_shot_not_gated_counterexample:
  "\<not> rate_gated (snd (ingest_frame sample_collaborators
        (default_settings\<lparr>max_client_fps := 1\<rparr>) sample_payload))
   \<and> map (\<lambda>p. list_ex is_Dispatch (snd (ingest_frame sample_collaborators
        (default_settings\<lparr>max_client_fps := 1\<rparr>) p))) [sample_payload, sample_payload]
      = [True, True]
   \<and> map (\<lambda>r. list_ex is_Dispatch (snd r)) (websocket_frames sample_collaborators
        (default_settings\<lparr>max_client_fps := 1\<rparr>) 0 [(Some sample_payload, 0), (Some sample_payload, 0)])
      = [True, False]"
proof -
  let ?cfg = "default_settings\<lparr>max_client_fps := 1\<rparr>"
  have pf: "process_frame sample_collaborators ?cfg sample_payload =
     (Inr \<lparr>success = True, resp_frame_id = Some ''f1'', resp_user_id = Some ''u1'',
              resp_module_id = Some ''m1'', resp_section_id = None, resp_timestamp = Some 5,
              resp_status = [(''metrics'', 7)], resp_metrics = Some 7, resp_current_frame = 0\<rparr>,
         [Transport_decode, Image_decode, Dispatch 4 (Some ''u1'') (Some ''m1'') None])"
    using split_comma_sample
    by (simp add: process_frame_def decode_frame_def sample_collaborators_def
        sample_payload_def default_settings_def truthy_def)
  have p: "FramePayload (Some sample_payload) = Inr sample_payload"
    by (simp add: FramePayload_def validate_base64_def sample_payload_def)
  show ?thesis
    by (simp add: ingest_frame_def pf websocket_frames_def handle_message_def p
        consume_def WebSocketLimiter_def Let_def)
qed

text \<open>
  C10. When browser streaming is disabled, \<open>process_frame\<close> fails with status 503 before
  the check of the ids, the decoding and the dispatch, whatever the payload is, and so does
  the single-shot channel. On the streaming channel no text gets a result and nothing is
  decoded or dispatched; with a budget of at least one frame per second and a clock that
  does not go backwards, the texts that do not parse get the invalid-payload reply and the
  first frame ends the handler with the 503.
\<close>

theorem disabled_streaming_is_unavailable:
  assumes "\<not> browser_streaming_enabled cfg"
  shows "process_frame ext cfg payload = (Inl (HTTPException 503), [])
       \<and> ingest_frame ext cfg payload = (Inl (HTTPException 503), [])
       \<and> list_all (\<lambda>r. \<not> is_Sent_result (fst r) \<and> set (snd r) \<subseteq> {Admission True, Admission False})
           (websocket_frames ext cfg t0 messages)
       \<and> (1 \<le> max_client_fps cfg \<and> sorted (t0 # map snd messages) \<longrightarrow>
            websocket_frames ext cfg t0 messages =
              map (\<lambda>m. (Sent_error ''Invalid payload'', []))
                  (takeWhile (\<lambda>m. isl (FramePayload (fst m))) messages)
              @ (if list_all (\<lambda>m. isl (FramePayload (fst m))) messages then []
                 else [(Raised (HTTPException 503), [Admission True])]))"
proof -
  let ?l = "WebSocketLimiter (real_of_int (max_client_fps cfg)) t0"
  have "websocket_loop ext cfg ?l messages =
              map (\<lambda>m. (Sent_error ''Invalid payload'', []))
                  (takeWhile (\<lambda>m. isl (FramePayload (fst m))) messages)
              @ (if list_all (\<lambda>m. isl (FramePayload (fst m))) messages then []
                 else [(Raised (HTTPException 503), [Admission True])])"
    if "1 \<le> max_client_fps cfg" "sorted (t0 # map snd messages)"
    using that by (intro websocket_loop_disabled [OF assms]) (simp_all add: WebSocketLimiter_def)
  then show ?thesis
    by (simp add: ingest_frame_def websocket_frames_def
        process_frame_disabled [OF assms] websocket_loop_disabled_untouched [OF assms])
qed

theorem disabled_streaming_is_unavailable_witness:
  "\<not> browser_streaming_enabled (default_settings\<lparr>browser_streaming_enabled := False\<rparr>)
   \<and> process_frame sample_collaborators (default_settings\<lparr>browser_streaming_enabled := False\<rparr>)
        sample_payload = (Inl (HTTPException 503), [])
   \<and> ingest_frame sample_collaborators (default_settings\<lparr>browser_streaming_enabled := False\<rparr>)
        sample_payload = (Inl (HTTPException 503), [])
   \<and> websocket_frames sample_collaborators (default_settings\<lparr>browser_streaming_enabled := False\<rparr>)
        0 [(None, 1), (Some sample_payload, 2), (Some sample_payload, 3)]
      = [(Sent_error ''Invalid payload'', []), (Raised (HTTPException 503), [Admission True])]"
proof -
  let ?cfg = "default_settings\<lparr>browser_streaming_enabled := False\<rparr>"
  let ?msgs = "[(None, 1), (Some sample_payload, 2), (Some sample_payload, 3::real)]"
  have d: "\<not> browser_streaming_enabled ?cfg" by simp
  have p: "FramePayload (Some sample_payload) = Inr sample_payload"
    by (simp add: FramePayload_def validate_base64_def sample_payload_def)
  have n: "FramePayload None = Inl ValueError"
    by (simp add: FramePayload_def)
  have h: "1 \<le> max_client_fps ?cfg \<and> sorted (0 # map snd ?msgs)"
    by (simp add: default_settings_def)
  from disabled_streaming_is_unavailable [OF d, of sample_collaborators sample_payload 0 ?msgs] h
  show ?thesis by (simp add: p n)
qed

end
